theory Spec2Isabelle
  imports Complex_Main "HOL-Library.AList"
begin

section \<open>JavaScript values\<close>

text \<open>
  The SDK is TypeScript whose values are mostly typed \<open>any\<close>; the attribute
  coercions decide by truthiness, by \<open>isNaN\<close> and by strict equality, so the model
  keeps the JavaScript distinctions the code branches on.

  A number is a double in JavaScript. It is modelled as an exact rational, or one of
  the three non-finite values; rounding of doubles is not modelled, and neither is the
  sign of zero (no branch of the code separates \<open>-0\<close> from \<open>0\<close>).
\<close>

datatype jsnum = Fin rat | NaN | PosInf | NegInf

text \<open>
  \<open>json\<close> holds the plain data values: what \<open>JSON.parse\<close> produces, and
  \<open>undefined\<close> (what reading a missing key gives). An object is the list of its own
  properties in insertion order, the keys distinct.
\<close>

datatype json =
    JUndefined
  | JNull
  | JBool bool
  | JNum jsnum
  | JStr string
  | JArr "json list"
  | JObj "(string \<times> json) list"

text \<open>
  The schema of a resource: \<open>RestfulModel.attributes\<close> is a dictionary from the
  native field name to an \<open>Attribute\<close> object, whose class is its kind. The base
  class \<open>Attribute\<close> is \<open>KRaw\<close>; \<open>AttributeObject\<close> inherits both coercions
  from it (its optional \<open>itemClass\<close> is never read by them). An
  \<open>AttributeCollection\<close> carries the class of its items.
\<close>

datatype attr_kind =
    KRaw
  | KObject
  | KNumber
  | KBoolean
  | KString
  | KStringList
  | KDate
  | KDateTime
  | KCollection model_class
and model_class =
    ModelClass (className: string) (collectionName: string) (attributes: "attribute list")
and attribute =
    Attribute (attrName: string) (modelKey: string) (jsonKey: string) (kind: attr_kind)

text \<open>
  Native values: a plain value, a \<open>Date\<close> (its time value in milliseconds, \<open>None\<close>
  for an invalid date), an array of native values, a model instance (its class and
  its fields in assignment order), and the raw response object of a download request.
\<close>

record response =
  statusCode :: nat
  headers :: "(string \<times> string) list"

datatype jsval =
    Wire json
  | JDate "int option"
  | JList "jsval list"
  | JModel model_class "(string \<times> jsval) list"
  | JResponse response

text \<open>
  What the JavaScript platform supplies and the repository does not contain: the
  conversions between numbers and strings, \<open>Date.parse\<close>, \<open>toISOString\<close>,
  \<open>JSON.parse\<close>, and the string conversion of the native objects. They are
  parameters of the model.
\<close>

record platform =
  number_toString :: "rat \<Rightarrow> string"
  string_toNumber :: "string \<Rightarrow> jsnum"
  date_parse :: "string \<Rightarrow> int option"
  date_toISOString :: "int \<Rightarrow> string"
  json_parse :: "string \<Rightarrow> json option"
  native_toString :: "jsval \<Rightarrow> string"

fun truthy :: "json \<Rightarrow> bool" where
  "truthy JUndefined = False"
| "truthy JNull = False"
| "truthy (JBool b) = b"
| "truthy (JNum (Fin r)) = (r \<noteq> 0)"
| "truthy (JNum NaN) = False"
| "truthy (JNum PosInf) = True"
| "truthy (JNum NegInf) = True"
| "truthy (JStr s) = (s \<noteq> [])"
| "truthy (JArr xs) = True"
| "truthy (JObj kvs) = True"

fun truthy_val :: "jsval \<Rightarrow> bool" where
  "truthy_val (Wire j) = truthy j"
| "truthy_val v = True"

fun join :: "string \<Rightarrow> string list \<Rightarrow> string" where
  "join sep [] = []"
| "join sep [s] = s"
| "join sep (s # t # ss) = s @ sep @ join sep (t # ss)"

fun jsnum_toString :: "platform \<Rightarrow> jsnum \<Rightarrow> string" where
  "jsnum_toString P (Fin r) = number_toString P r"
| "jsnum_toString P NaN = ''NaN''"
| "jsnum_toString P PosInf = ''Infinity''"
| "jsnum_toString P NegInf = ''-Infinity''"

text \<open>
  \<open>ToString\<close>, as a template literal applies it. An array joins its elements with
  commas, \<open>null\<close> and \<open>undefined\<close> elements as the empty string.
\<close>

fun to_string :: "platform \<Rightarrow> json \<Rightarrow> string" where
  "to_string P JUndefined = ''undefined''"
| "to_string P JNull = ''null''"
| "to_string P (JBool b) = (if b then ''true'' else ''false'')"
| "to_string P (JNum n) = jsnum_toString P n"
| "to_string P (JStr s) = s"
| "to_string P (JArr xs) =
     join '','' (map (\<lambda>x. if x = JUndefined \<or> x = JNull then [] else to_string P x) xs)"
| "to_string P (JObj kvs) = ''[object Object]''"

fun to_string_val :: "platform \<Rightarrow> jsval \<Rightarrow> string" where
  "to_string_val P (Wire j) = to_string P j"
| "to_string_val P v = native_toString P v"

text \<open>\<open>ToNumber\<close>: an array or object goes through its string.\<close>

fun to_number :: "platform \<Rightarrow> json \<Rightarrow> jsnum" where
  "to_number P JUndefined = NaN"
| "to_number P JNull = Fin 0"
| "to_number P (JBool b) = (if b then Fin 1 else Fin 0)"
| "to_number P (JNum n) = n"
| "to_number P (JStr s) = string_toNumber P s"
| "to_number P (JArr xs) = string_toNumber P (to_string P (JArr xs))"
| "to_number P (JObj kvs) = string_toNumber P (to_string P (JObj kvs))"

text \<open>
  Reading a property of a value that is neither \<open>null\<close> nor \<open>undefined\<close>. The keys
  the code reads (\<open>message\<close>, \<open>missing_fields\<close>, \<open>server_error\<close>, \<open>count\<close>, the
  wire keys of the schemas) are no built-in property of a string, number, boolean or
  array, so only an object can hold them.
\<close>

fun get_prop :: "json \<Rightarrow> string \<Rightarrow> json" where
  "get_prop (JObj kvs) k = (case map_of kvs k of Some v \<Rightarrow> v | None \<Rightarrow> JUndefined)"
| "get_prop j k = JUndefined"

section \<open>Attribute coercions\<close>

text \<open>\<open>new Date(x)\<close> for a number: \<open>TimeClip\<close> truncates toward zero and rejects
  a magnitude above 8.64e15 milliseconds.\<close>

definition trunc :: "rat \<Rightarrow> int" where
  "trunc r = (if 0 \<le> r then \<lfloor>r\<rfloor> else \<lceil>r\<rceil>)"

fun time_clip :: "jsnum \<Rightarrow> int option" where
  "time_clip (Fin r) = (if \<bar>r\<bar> > 8640000000000000 then None else Some (trunc r))"
| "time_clip n = None"

text \<open>\<open>new Date(val)\<close> with one argument: a string is parsed, anything else is
  converted to a number; an array or object becomes a string first.\<close>

fun new_Date :: "platform \<Rightarrow> json \<Rightarrow> jsval" where
  "new_Date P (JStr s) = JDate (date_parse P s)"
| "new_Date P (JArr xs) = JDate (date_parse P (to_string P (JArr xs)))"
| "new_Date P (JObj kvs) = JDate (date_parse P (to_string P (JObj kvs)))"
| "new_Date P j = JDate (time_clip (to_number P j))"

fun jsnum_times :: "jsnum \<Rightarrow> rat \<Rightarrow> jsnum" where
  "jsnum_times (Fin r) k = Fin (r * k)"
| "jsnum_times NaN k = NaN"
| "jsnum_times PosInf k = (if k = 0 then NaN else if 0 < k then PosInf else NegInf)"
| "jsnum_times NegInf k = (if k = 0 then NaN else if 0 < k then NegInf else PosInf)"

datatype js_error =
  JsError (err_name: string) (err_message: string) (err_statusCode: "nat option")

definition Error :: "string \<Rightarrow> js_error" where
  "Error msg = JsError ''Error'' msg None"

definition TypeError :: "string \<Rightarrow> js_error" where
  "TypeError msg = JsError ''TypeError'' msg None"

definition RangeError :: "string \<Rightarrow> js_error" where
  "RangeError msg = JsError ''RangeError'' msg None"

definition nl :: string where
  "nl = [CHR 0x0A]"

text \<open>\<open>Attribute.fromJSON\<close>: \<open>val || null\<close>; \<open>toJSON\<close> returns its argument.\<close>

definition Attribute_fromJSON :: "json \<Rightarrow> jsval" where
  "Attribute_fromJSON val = (if truthy val then Wire val else Wire JNull)"

definition Attribute_toJSON :: "jsval \<Rightarrow> js_error + jsval" where
  "Attribute_toJSON val = Inr val"

text \<open>\<open>AttributeNumber.fromJSON\<close>: \<open>if (!isNaN(val)) return Number(val); else return null\<close>.\<close>

definition isNaN :: "platform \<Rightarrow> json \<Rightarrow> bool" where
  "isNaN P val = (to_number P val = NaN)"

definition AttributeNumber_fromJSON :: "platform \<Rightarrow> json \<Rightarrow> jsval" where
  "AttributeNumber_fromJSON P val =
     (if \<not> isNaN P val then Wire (JNum (to_number P val)) else Wire JNull)"

text \<open>\<open>AttributeBoolean.fromJSON\<close>: \<open>val === 'true' || val === true || false\<close>.\<close>

definition AttributeBoolean_fromJSON :: "json \<Rightarrow> jsval" where
  "AttributeBoolean_fromJSON val = Wire (JBool (val = JStr ''true'' \<or> val = JBool True))"

text \<open>\<open>AttributeString.fromJSON\<close>: \<open>val || ''\<close>.\<close>

definition AttributeString_fromJSON :: "json \<Rightarrow> jsval" where
  "AttributeString_fromJSON val = (if truthy val then Wire val else Wire (JStr []))"

text \<open>\<open>AttributeStringList.fromJSON\<close>: \<open>val || []\<close>.\<close>

definition AttributeStringList_fromJSON :: "json \<Rightarrow> jsval" where
  "AttributeStringList_fromJSON val = (if truthy val then Wire val else Wire (JArr []))"

text \<open>\<open>AttributeDate\<close>: an ISO string on the wire.\<close>

definition AttributeDate_fromJSON :: "platform \<Rightarrow> json \<Rightarrow> jsval" where
  "AttributeDate_fromJSON P val = (if \<not> truthy val then Wire JNull else new_Date P val)"

definition AttributeDate_toJSON :: "platform \<Rightarrow> string \<Rightarrow> jsval \<Rightarrow> js_error + jsval" where
  "AttributeDate_toJSON P mk val =
     (if \<not> truthy_val val then Inr val
      else case val of
        JDate None \<Rightarrow> Inl (RangeError ''Invalid time value'')
      | JDate (Some t) \<Rightarrow> Inr (Wire (JStr (date_toISOString P t)))
      | _ \<Rightarrow> Inl (Error (''Attempting to toJSON AttributeDate which is not a date:'' @ nl
                 @ ''          '' @ mk @ nl @ ''         = '' @ to_string_val P val)))"

text \<open>\<open>AttributeDateTime\<close>: epoch seconds on the wire.\<close>

definition AttributeDateTime_fromJSON :: "platform \<Rightarrow> json \<Rightarrow> jsval" where
  "AttributeDateTime_fromJSON P val =
     (if \<not> truthy val then Wire JNull
      else JDate (time_clip (jsnum_times (to_number P val) 1000)))"

definition AttributeDateTime_toJSON :: "platform \<Rightarrow> string \<Rightarrow> jsval \<Rightarrow> js_error + jsval" where
  "AttributeDateTime_toJSON P mk val =
     (if \<not> truthy_val val then Inr (Wire JNull)
      else case val of
        JDate None \<Rightarrow> Inr (Wire (JNum NaN))
      | JDate (Some t) \<Rightarrow> Inr (Wire (JNum (Fin (of_int t / 1000))))
      | _ \<Rightarrow> Inl (Error (''Attempting to toJSON AttributeDateTime which is not a date:'' @ nl
                 @ ''          '' @ mk @ nl @ ''        = '' @ to_string_val P val)))"

text \<open>
  \<open>AttributeCollection.fromJSON\<close> builds one item per element with
  \<open>new this.itemClass(parent.connection, objJSON)\<close>; the constructor of
  \<open>RestfulModel\<close> runs \<open>this.fromJSON(json)\<close> when \<open>json\<close> is truthy, and
  \<open>fromJSON\<close> loops over the declared attributes, assigning
  \<open>attr.fromJSON(json[attr.jsonKey], this)\<close> where \<open>json[attr.jsonKey] !== undefined\<close>.
  The three call each other, so they are one recursive definition, by descent through
  the schema. The \<open>connection\<close> field has the declared type \<open>NylasConnection\<close>, so
  the constructor's \<open>instanceof\<close> check passes for \<open>parent.connection\<close>; the parent
  is not read otherwise and is no argument here.
\<close>

type_synonym fields = "(string \<times> jsval) list"

fun attr_fromJSON :: "platform \<Rightarrow> attr_kind \<Rightarrow> json \<Rightarrow> jsval"
and AttributeCollection_fromJSON :: "platform \<Rightarrow> model_class \<Rightarrow> json \<Rightarrow> jsval"
and RestfulModel_new :: "platform \<Rightarrow> model_class \<Rightarrow> json \<Rightarrow> jsval"
and fromJSON_loop :: "platform \<Rightarrow> attribute list \<Rightarrow> json \<Rightarrow> fields \<Rightarrow> fields"
where
  "attr_fromJSON P KRaw val = Attribute_fromJSON val"
| "attr_fromJSON P KObject val = Attribute_fromJSON val"
| "attr_fromJSON P KNumber val = AttributeNumber_fromJSON P val"
| "attr_fromJSON P KBoolean val = AttributeBoolean_fromJSON val"
| "attr_fromJSON P KString val = AttributeString_fromJSON val"
| "attr_fromJSON P KStringList val = AttributeStringList_fromJSON val"
| "attr_fromJSON P KDate val = AttributeDate_fromJSON P val"
| "attr_fromJSON P KDateTime val = AttributeDateTime_fromJSON P val"
| "attr_fromJSON P (KCollection itemClass) val = AttributeCollection_fromJSON P itemClass val"
| "AttributeCollection_fromJSON P itemClass (JArr xs) =
     JList (map (\<lambda>objJSON. RestfulModel_new P itemClass objJSON) xs)"
| "AttributeCollection_fromJSON P itemClass j = JList []"
| "RestfulModel_new P (ModelClass n c attrs) json =
     JModel (ModelClass n c attrs)
       (if truthy json then fromJSON_loop P attrs json [] else [])"
| "fromJSON_loop P [] json fs = fs"
| "fromJSON_loop P (Attribute an mk jk k # attrs) json fs =
     fromJSON_loop P attrs json
       (if get_prop json jk \<noteq> JUndefined
        then AList.update an (attr_fromJSON P k (get_prop json jk)) fs
        else fs)"

text \<open>
  \<open>RestfulModel.fromJSON(json = {})\<close> on an instance of class \<open>cls\<close> with fields
  \<open>fs\<close>: an \<open>undefined\<close> argument takes the default \<open>{}\<close>, and reading a key of
  \<open>null\<close> throws. The result is the instance itself (\<open>return this\<close>), with its
  fields updated. With no declared attribute the loop reads nothing.
\<close>

definition RestfulModel_fromJSON ::
  "platform \<Rightarrow> model_class \<Rightarrow> json \<Rightarrow> fields \<Rightarrow> js_error + fields" where
  "RestfulModel_fromJSON P cls json fs =
     (case json of
        JNull \<Rightarrow>
          if attributes cls = [] then Inr fs
          else Inl (TypeError ''Cannot read properties of null'')
      | JUndefined \<Rightarrow> Inr (fromJSON_loop P (attributes cls) (JObj []) fs)
      | _ \<Rightarrow> Inr (fromJSON_loop P (attributes cls) json fs))"

section \<open>The request dispatcher\<close>

text \<open>
  Query parameters. The code reads \<open>view\<close>, \<open>expanded\<close>, \<open>limit\<close> and \<open>offset\<close> of a
  parameter object and passes every other key through; \<open>limit\<close> and \<open>offset\<close> are
  declared \<open>number\<close> and hold counts, modelled as integers. \<open>None\<close> is a key the
  object does not have.
\<close>

record params =
  view :: "json option"
  expanded :: "json option"
  limit :: "int option"
  offset :: "int option"
  filters :: "(string \<times> json) list"

definition no_params :: params where
  "no_params = \<lparr>view = None, expanded = None, limit = None, offset = None, filters = []\<rparr>"

text \<open>The options of one request, before and after \<open>requestOptions\<close>.\<close>

record options =
  opt_method :: "string option"
  opt_path :: string
  opt_url :: "string option"
  opt_qs :: "params option"
  opt_body :: "jsval option"
  opt_formData :: bool
  opt_json :: "bool option"
  opt_downloadRequest :: bool
  opt_auth :: "string option"
  opt_headers :: "(string \<times> string option) list"

definition request_for :: "string \<Rightarrow> string \<Rightarrow> params option \<Rightarrow> jsval option \<Rightarrow> options" where
  "request_for m p q b =
     \<lparr>opt_method = Some m, opt_path = p, opt_url = None, opt_qs = q, opt_body = b,
      opt_formData = False, opt_json = None, opt_downloadRequest = False,
      opt_auth = None, opt_headers = []\<rparr>"

text \<open>
  What the HTTP client hands to the callback \<open>(error, response, body = {})\<close> of
  \<open>request\<close>: an error or none, a response or none, and the body (\<open>JUndefined\<close> when
  the client passes none).
\<close>

type_synonym raw = "js_error option \<times> response option \<times> json"

record config =
  apiServer :: string
  clientSecret :: "string option"
  SDK_VERSION :: string

text \<open>
  A connection, with the HTTP client it calls: the \<open>request\<close> library, the network
  and the server behind it, as a function of the resolved options.
\<close>

record connection =
  accessToken :: "string option"
  clientId :: "string option"
  conf :: config
  transport :: "options \<Rightarrow> raw"

definition SUPPORTED_API_VERSION :: string where
  "SUPPORTED_API_VERSION = ''2.1''"

definition nonempty :: "string option \<Rightarrow> bool" where
  "nonempty s = (case s of None \<Rightarrow> False | Some t \<Rightarrow> t \<noteq> [])"

text \<open>
  \<open>requestOptions\<close> copies the options and fills them in, one statement after the
  other; each statement is a step here.
\<close>

definition default_method :: "options \<Rightarrow> options" where
  "default_method options =
     (if nonempty (opt_method options) then options else options\<lparr>opt_method := Some ''GET''\<rparr>)"

definition default_url :: "connection \<Rightarrow> options \<Rightarrow> options" where
  "default_url conn options =
     (if opt_path options \<noteq> [] \<and> \<not> nonempty (opt_url options)
      then options\<lparr>opt_url := Some (apiServer (conf conn) @ opt_path options)\<rparr>
      else options)"

definition default_body :: "options \<Rightarrow> options" where
  "default_body options =
     (if \<not> opt_formData options \<and>
         \<not> (case opt_body options of None \<Rightarrow> False | Some b \<Rightarrow> truthy_val b)
      then options\<lparr>opt_body := Some (Wire (JObj []))\<rparr>
      else options)"

definition default_json :: "options \<Rightarrow> options" where
  "default_json options =
     (if opt_json options = None then options\<lparr>opt_json := Some True\<rparr> else options)"

text \<open>\<open>expanded: true\<close> becomes \<open>view: 'expanded'\<close>; a truthy \<open>expanded\<close> is deleted.\<close>

definition expand_view :: "options \<Rightarrow> options" where
  "expand_view options =
     (case opt_qs options of
        None \<Rightarrow> options
      | Some q \<Rightarrow>
          (case expanded q of
             None \<Rightarrow> options
           | Some e \<Rightarrow>
               if truthy e
               then options\<lparr>opt_qs :=
                      Some ((if e = JBool True then q\<lparr>view := Some (JStr ''expanded'')\<rparr> else q)
                            \<lparr>expanded := None\<rparr>)\<rparr>
               else options))"

definition set_auth :: "connection \<Rightarrow> options \<Rightarrow> options" where
  "set_auth conn options =
     (let user = (if take 3 (opt_path options) = ''/a/'' then clientSecret (conf conn)
                  else accessToken conn)
      in if nonempty user then options\<lparr>opt_auth := user\<rparr> else options)"

definition set_headers :: "connection \<Rightarrow> options \<Rightarrow> options" where
  "set_headers conn options =
     options\<lparr>opt_headers :=
       AList.update ''X-Nylas-Client-Id'' (clientId conn)
         (AList.update ''Nylas-SDK-API-Version'' (Some SUPPORTED_API_VERSION)
            (case map_of (opt_headers options) ''User-Agent'' of
               Some (Some v) \<Rightarrow> opt_headers options
             | _ \<Rightarrow> AList.update ''User-Agent''
                      (Some (''Nylas Node SDK v'' @ SDK_VERSION (conf conn)))
                      (opt_headers options)))\<rparr>"

definition requestOptions :: "connection \<Rightarrow> options \<Rightarrow> options" where
  "requestOptions conn options =
     set_headers conn (set_auth conn (expand_view (default_json (default_body
       (default_url conn (default_method options))))))"

text \<open>
  \<open>parseInt(s)\<close> with no radix: leading white space, a sign, \<open>0x\<close> for hexadecimal,
  then the longest run of digits; \<open>None\<close> is \<open>NaN\<close>. Strings are byte lists here, so
  the white space is the ASCII part of JavaScript's.
\<close>

definition is_space :: "char \<Rightarrow> bool" where
  "is_space c = (c \<in> set [CHR 0x09, CHR 0x0A, CHR 0x0B, CHR 0x0C, CHR 0x0D, CHR '' ''])"

definition digit_val :: "char \<Rightarrow> nat option" where
  "digit_val c =
     (let n = (of_char c :: nat) in
      if 48 \<le> n \<and> n \<le> 57 then Some (n - 48)
      else if 97 \<le> n \<and> n \<le> 122 then Some (n - 87)
      else if 65 \<le> n \<and> n \<le> 90 then Some (n - 55)
      else None)"

definition is_digit :: "nat \<Rightarrow> char \<Rightarrow> bool" where
  "is_digit radix c = (case digit_val c of None \<Rightarrow> False | Some d \<Rightarrow> d < radix)"

definition digits_val :: "nat \<Rightarrow> string \<Rightarrow> nat" where
  "digits_val radix ds = foldl (\<lambda>n c. n * radix + (case digit_val c of None \<Rightarrow> 0 | Some d \<Rightarrow> d)) 0 ds"

fun strip_sign :: "string \<Rightarrow> int \<times> string" where
  "strip_sign (c # cs) =
     (if c = CHR ''-'' then (- 1, cs) else if c = CHR ''+'' then (1, cs) else (1, c # cs))"
| "strip_sign [] = (1, [])"

fun strip_radix :: "string \<Rightarrow> nat \<times> string" where
  "strip_radix (a # b # cs) =
     (if a = CHR ''0'' \<and> (b = CHR ''x'' \<or> b = CHR ''X'') then (16, cs) else (10, a # b # cs))"
| "strip_radix cs = (10, cs)"

definition parseInt :: "string \<Rightarrow> int option" where
  "parseInt s =
     (case strip_sign (dropWhile is_space s) of
        (sign, s2) \<Rightarrow>
          (case strip_radix s2 of
             (radix, s3) \<Rightarrow>
               (let ds = takeWhile (is_digit radix) s3
                in if ds = [] then None else Some (sign * int (digits_val radix ds)))))"

text \<open>\<open>v.split('-')[0]\<close>.\<close>

definition before_dash :: "string \<Rightarrow> string" where
  "before_dash v = takeWhile (\<lambda>c. c \<noteq> CHR ''-'') v"

text \<open>\<open>a > b\<close> on two results of \<open>parseInt\<close>: false when either is \<open>NaN\<close>.\<close>

definition num_gt :: "int option \<Rightarrow> int option \<Rightarrow> bool" where
  "num_gt a b = (case (a, b) of (Some x, Some y) \<Rightarrow> x > y | _ \<Rightarrow> False)"

definition warning_base :: "string \<Rightarrow> string \<Rightarrow> string" where
  "warning_base sdkApiVersion apiVersion =
     ''WARNING: SDK version may not support your Nylas API version.'' @
     '' SDK supports version '' @ sdkApiVersion @ '' of the API and your application'' @
     '' is currently running on version '' @ apiVersion @ '' of the API.''"

definition update_api :: string where
  "update_api = '' Please update the version of the API that your application is using through the developer dashboard.''"

definition update_sdk :: string where
  "update_sdk = '' Please update the sdk to ensure it works properly.''"

definition getWarningForVersion :: "string option \<Rightarrow> string option \<Rightarrow> string" where
  "getWarningForVersion sdkApiVersion apiVersion =
     (if sdkApiVersion \<noteq> apiVersion then
        (case (sdkApiVersion, apiVersion) of
           (Some sdk, Some api) \<Rightarrow>
             if sdk \<noteq> [] \<and> api \<noteq> [] then
               (let apiNum = parseInt (before_dash api);
                    sdkNum = parseInt (before_dash sdk)
                in warning_base sdk api @
                   (if num_gt sdkNum apiNum then update_api
                    else if num_gt apiNum sdkNum then update_sdk
                    else []))
             else []
         | _ \<Rightarrow> [])
      else [])"

text \<open>
  How a promise ends: fulfilled with a value, rejected with an error, or never settled
  because the code threw inside the HTTP client's callback, outside every promise.
\<close>

datatype settle = Fulfilled jsval | Rejected js_error | Crashed js_error

text \<open>
  What a run does besides returning: the requests it hands to the HTTP client, the
  warnings it logs, and the calls of the caller's functions (the trailing callback with
  \<open>(error, result)\<close>, \<open>forEach\<close>'s item callback and its completion callback), in
  order.
\<close>

datatype event =
    Requested options
  | Warned string
  | Called "js_error option" "jsval option"
  | Item jsval
  | Completed "js_error option"

text \<open>\<open>new Error(m)\<close>: no message for \<open>undefined\<close>, the string of \<open>m\<close> otherwise.\<close>

definition new_Error :: "platform \<Rightarrow> json \<Rightarrow> js_error" where
  "new_Error P m = Error (if m = JUndefined then [] else to_string P m)"

definition set_message :: "string \<Rightarrow> js_error \<Rightarrow> js_error" where
  "set_message m e = JsError (err_name e) m (err_statusCode e)"

definition set_statusCode :: "nat \<Rightarrow> js_error \<Rightarrow> js_error" where
  "set_statusCode c e = JsError (err_name e) (err_message e) (Some c)"

text \<open>The branch of \<open>request\<close> for \<open>error || response.statusCode > 299\<close>; reading a
  property of a \<open>null\<close> body throws.\<close>

definition classify_error :: "platform \<Rightarrow> js_error option \<Rightarrow> response \<Rightarrow> json \<Rightarrow> settle" where
  "classify_error P error resp body =
     (if body = JNull \<or> body = JUndefined
      then Crashed (TypeError ''Cannot read properties of null'')
      else
        (let e1 = (case error of Some e \<Rightarrow> e | None \<Rightarrow> new_Error P (get_prop body ''message''));
             e2 = (if truthy (get_prop body ''missing_fields'')
                   then set_message (to_string P (get_prop body ''message'') @ '': '' @
                                     to_string P (get_prop body ''missing_fields'')) e1
                   else e1);
             e3 = (if truthy (get_prop body ''server_error'')
                   then set_message (err_message e2 @ '' (Server Error:'' @ nl @
                                     ''              '' @ to_string P (get_prop body ''server_error'') @ nl @
                                     ''            )'') e2
                   else e2);
             e4 = (if statusCode resp \<noteq> 0 then set_statusCode (statusCode resp) e3 else e3)
         in Rejected e4))"

text \<open>
  \<open>NylasConnection.request\<close>, in the order of its callback: no response rejects;
  the version of the API the server reports is compared and a warning logged; a body
  that was asked for unparsed (\<open>json === false\<close>) is parsed, which may throw; an
  error or a status above 299 rejects; anything else resolves, with the response
  itself for a download request and with the body otherwise.
\<close>

definition version_warnings :: "response \<Rightarrow> event list" where
  "version_warnings resp =
     (let warning = getWarningForVersion (Some SUPPORTED_API_VERSION)
                      (map_of (headers resp) ''nylas-api-version'')
      in if warning \<noteq> [] then [Warned warning] else [])"

definition parsed_body :: "platform \<Rightarrow> options \<Rightarrow> json \<Rightarrow> json option" where
  "parsed_body P resolvedOptions body0 =
     (let body = (if body0 = JUndefined then JObj [] else body0)
      in if opt_json resolvedOptions = Some False
         then json_parse P (to_string P body) else Some body)"

definition settle_response ::
  "platform \<Rightarrow> options \<Rightarrow> js_error option \<Rightarrow> response \<Rightarrow> json \<Rightarrow> settle" where
  "settle_response P resolvedOptions error resp body =
     (if error \<noteq> None \<or> statusCode resp > 299
      then classify_error P error resp body
      else if opt_downloadRequest resolvedOptions
      then Fulfilled (JResponse resp)
      else Fulfilled (Wire body))"

definition NylasConnection_request ::
  "platform \<Rightarrow> connection \<Rightarrow> options \<Rightarrow> settle \<times> event list" where
  "NylasConnection_request P conn options =
     (case transport conn (requestOptions conn options) of
        (error, None, body0) \<Rightarrow>
          (Rejected (case error of Some e \<Rightarrow> e | None \<Rightarrow> Error ''No response''),
           [Requested (requestOptions conn options)])
      | (error, Some resp, body0) \<Rightarrow>
          ((case parsed_body P (requestOptions conn options) body0 of
              None \<Rightarrow> Crashed (JsError ''SyntaxError'' ''Unexpected token'' None)
            | Some body \<Rightarrow> settle_response P (requestOptions conn options) error resp body),
           Requested (requestOptions conn options) # version_warnings resp))"

section \<open>The resource collection\<close>

text \<open>
  A caller's function is modelled by the value it returns when called (it does not
  throw); each call is an event. \<open>None\<close> is a callback that was not supplied.
\<close>

type_synonym callback = "jsval option"

definition call :: "callback \<Rightarrow> js_error option \<Rightarrow> jsval option \<Rightarrow> event list" where
  "call cb err res = (case cb of None \<Rightarrow> [] | Some r \<Rightarrow> [Called err res])"

text \<open>
  What a call returns to its caller: a promise (with how it ends), a plain value, or
  an exception thrown before anything is returned.
\<close>

datatype outcome = Promised settle | Returned jsval | Threw js_error

text \<open>
  The common tail \<open>.then(v => { callback(null, f(v)); return f(v) })
  .catch(err => { callback(err); return Promise.reject(err) })\<close> of \<open>count\<close>,
  \<open>first\<close>, \<open>find\<close>, \<open>deleteItem\<close> and \<open>_save\<close>, where \<open>f\<close> may throw.
\<close>

definition then_catch ::
  "callback \<Rightarrow> (jsval \<Rightarrow> js_error + jsval) \<Rightarrow> settle \<times> event list \<Rightarrow> settle \<times> event list" where
  "then_catch cb f r =
     (case r of
        (Fulfilled v, evs) \<Rightarrow>
          (case f v of
             Inr w \<Rightarrow> (Fulfilled w, evs @ call cb None (Some w))
           | Inl e \<Rightarrow> (Rejected e, evs @ call cb (Some e) None))
      | (Rejected e, evs) \<Rightarrow> (Rejected e, evs @ call cb (Some e) None)
      | (Crashed e, evs) \<Rightarrow> (Crashed e, evs))"

text \<open>
  The operations of a collection send no download request, so a fulfilled request
  carries a body; \<open>as_json\<close> reads it.
\<close>

fun as_json :: "jsval \<Rightarrow> json" where
  "as_json (Wire j) = j"
| "as_json v = JObj []"

text \<open>\<open>x == 'str'\<close>, the loose equality the \<open>view\<close> checks use.\<close>

fun jsnum_eq :: "jsnum \<Rightarrow> jsnum \<Rightarrow> bool" where
  "jsnum_eq NaN m = False"
| "jsnum_eq n NaN = False"
| "jsnum_eq n m = (n = m)"

fun loose_eq_str :: "platform \<Rightarrow> json \<Rightarrow> string \<Rightarrow> bool" where
  "loose_eq_str P (JStr t) s = (t = s)"
| "loose_eq_str P (JNum n) s = jsnum_eq n (string_toNumber P s)"
| "loose_eq_str P (JBool b) s = jsnum_eq (to_number P (JBool b)) (string_toNumber P s)"
| "loose_eq_str P JNull s = False"
| "loose_eq_str P JUndefined s = False"
| "loose_eq_str P (JArr xs) s = (to_string P (JArr xs) = s)"
| "loose_eq_str P (JObj kvs) s = (to_string P (JObj kvs) = s)"

definition view_is :: "platform \<Rightarrow> params \<Rightarrow> string \<Rightarrow> bool" where
  "view_is P ps s = (case view ps of None \<Rightarrow> False | Some v \<Rightarrow> loose_eq_str P v s)"

definition REQUEST_CHUNK_SIZE :: int where
  "REQUEST_CHUNK_SIZE = 100"

definition Collection_path :: "model_class \<Rightarrow> string" where
  "Collection_path cls = ''/'' @ collectionName cls"

definition Collection_createModel :: "platform \<Rightarrow> model_class \<Rightarrow> json \<Rightarrow> jsval" where
  "Collection_createModel P cls json = RestfulModel_new P cls json"

text \<open>\<open>promise.then(f)\<close> where \<open>f\<close> may throw.\<close>

definition then_map :: "(jsval \<Rightarrow> js_error + jsval) \<Rightarrow> settle \<Rightarrow> settle" where
  "then_map f s =
     (case s of
        Fulfilled v \<Rightarrow> (case f v of Inr w \<Rightarrow> Fulfilled w | Inl e \<Rightarrow> Rejected e)
      | Rejected e \<Rightarrow> Rejected e
      | Crashed e \<Rightarrow> Crashed e)"

text \<open>\<open>_getModel\<close>: one GET, the body made a model.\<close>

definition Collection_getModel ::
  "platform \<Rightarrow> connection \<Rightarrow> model_class \<Rightarrow> json \<Rightarrow> params \<Rightarrow> settle \<times> event list" where
  "Collection_getModel P conn cls ident ps =
     (case NylasConnection_request P conn
             (request_for ''GET'' (Collection_path cls @ ''/'' @ to_string P ident) (Some ps) None) of
        (s, evs) \<Rightarrow> (then_map (\<lambda>json. Inr (Collection_createModel P cls (as_json json))) s, evs))"

text \<open>\<open>_getModelCollection\<close>: \<open>jsonArray.map\<close> throws unless the body is an array.\<close>

definition models_of :: "platform \<Rightarrow> model_class \<Rightarrow> jsval \<Rightarrow> js_error + jsval" where
  "models_of P cls v =
     (case v of
        Wire (JArr jsonArray) \<Rightarrow> Inr (JList (map (Collection_createModel P cls) jsonArray))
      | _ \<Rightarrow> Inl (TypeError ''jsonArray.map is not a function''))"

definition Collection_getModelCollection ::
  "platform \<Rightarrow> connection \<Rightarrow> model_class \<Rightarrow> params \<Rightarrow> int \<Rightarrow> int \<Rightarrow> string \<Rightarrow>
   settle \<times> event list" where
  "Collection_getModelCollection P conn cls ps off lmt path =
     (case NylasConnection_request P conn
             (request_for ''GET'' path (Some (ps\<lparr>offset := Some off, limit := Some lmt\<rparr>)) None) of
        (s, evs) \<Rightarrow> (then_map (models_of P cls) s, evs))"

text \<open>\<open>_getItems\<close>: with the \<open>ids\<close> view the body is returned as it is.\<close>

definition Collection_getItems ::
  "platform \<Rightarrow> connection \<Rightarrow> model_class \<Rightarrow> params \<Rightarrow> int \<Rightarrow> int \<Rightarrow> string option \<Rightarrow>
   settle \<times> event list" where
  "Collection_getItems P conn cls ps off lmt path0 =
     (let path = (case path0 of
                    None \<Rightarrow> Collection_path cls
                  | Some p \<Rightarrow> if p = [] then Collection_path cls else p) in
      if view_is P ps ''ids''
      then NylasConnection_request P conn
             (request_for ''GET'' path (Some (ps\<lparr>offset := Some off, limit := Some lmt\<rparr>)) None)
      else Collection_getModelCollection P conn cls ps off lmt path)"

text \<open>
  What the traversals do with a chunk. The declared type of a chunk is an array; the
  \<open>ids\<close> view hands over whatever body the server sent, so the array operations are
  given on every value: \<open>accumulated.concat(items)\<close> appends a value that is no array
  as one element, \<open>items.length\<close> throws on \<open>null\<close>, \<open>for (const item of items)\<close>
  throws on a value that is not iterable, and \<open>x < 100\<close> is false when \<open>x\<close> is no
  number.
\<close>

fun concat_items :: "jsval list \<Rightarrow> jsval \<Rightarrow> jsval list" where
  "concat_items acc (JList ms) = acc @ ms"
| "concat_items acc (Wire (JArr xs)) = acc @ map Wire xs"
| "concat_items acc v = acc @ [v]"

fun items_length :: "jsval \<Rightarrow> js_error + json" where
  "items_length (JList ms) = Inr (JNum (Fin (of_nat (length ms))))"
| "items_length (Wire (JArr xs)) = Inr (JNum (Fin (of_nat (length xs))))"
| "items_length (Wire (JStr s)) = Inr (JNum (Fin (of_nat (length s))))"
| "items_length (Wire (JObj kvs)) = Inr (get_prop (JObj kvs) ''length'')"
| "items_length (Wire JNull) = Inl (TypeError ''Cannot read properties of null'')"
| "items_length (Wire JUndefined) = Inl (TypeError ''Cannot read properties of undefined'')"
| "items_length v = Inr JUndefined"

fun iterate_items :: "jsval \<Rightarrow> js_error + jsval list" where
  "iterate_items (JList ms) = Inr ms"
| "iterate_items (Wire (JArr xs)) = Inr (map Wire xs)"
| "iterate_items (Wire (JStr s)) = Inr (map (\<lambda>c. Wire (JStr [c])) s)"
| "iterate_items v = Inl (TypeError ''items is not iterable'')"

fun index0 :: "jsval \<Rightarrow> js_error + jsval" where
  "index0 (JList ms) = Inr (case ms of [] \<Rightarrow> Wire JUndefined | m # _ \<Rightarrow> m)"
| "index0 (Wire (JArr xs)) = Inr (case xs of [] \<Rightarrow> Wire JUndefined | x # _ \<Rightarrow> Wire x)"
| "index0 (Wire (JStr s)) = Inr (case s of [] \<Rightarrow> Wire JUndefined | c # _ \<Rightarrow> Wire (JStr [c]))"
| "index0 (Wire (JObj kvs)) = Inr (Wire (get_prop (JObj kvs) ''0''))"
| "index0 (Wire JNull) = Inl (TypeError ''Cannot read properties of null'')"
| "index0 (Wire JUndefined) = Inl (TypeError ''Cannot read properties of undefined'')"
| "index0 v = Inr (Wire JUndefined)"

definition less_than :: "platform \<Rightarrow> json \<Rightarrow> int \<Rightarrow> bool" where
  "less_than P x n =
     (case to_number P x of Fin r \<Rightarrow> r < of_int n | NegInf \<Rightarrow> True | _ \<Rightarrow> False)"

text \<open>The \<open>limit\<close> of \<open>_range\<close>: a number, or \<open>Infinity\<close>.\<close>

datatype js_limit = Limit int | Unlimited

text \<open>\<open>Math.min(REQUEST_CHUNK_SIZE, limit - accumulated.length)\<close>.\<close>

fun chunk_limit :: "js_limit \<Rightarrow> nat \<Rightarrow> int" where
  "chunk_limit (Limit l) n = min REQUEST_CHUNK_SIZE (l - int n)"
| "chunk_limit Unlimited n = REQUEST_CHUNK_SIZE"

text \<open>\<open>accumulated.length >= limit\<close>.\<close>

fun reached :: "js_limit \<Rightarrow> nat \<Rightarrow> bool" where
  "reached (Limit l) n = (int n \<ge> l)"
| "reached Unlimited n = False"

text \<open>
  The \<open>iteratee\<close> of \<open>_range\<close>: it calls itself until a chunk is short or the limit
  is reached, so it need not return; \<open>None\<close> is the run that never ends. It yields how
  the promise of \<open>iteratee()\<close> ends, the accumulated items and the events.
\<close>

partial_function (option) range_iteratee ::
  "platform \<Rightarrow> connection \<Rightarrow> model_class \<Rightarrow> params \<Rightarrow> int \<Rightarrow> js_limit \<Rightarrow> string option \<Rightarrow>
   jsval list \<Rightarrow> event list \<Rightarrow> (settle \<times> jsval list \<times> event list) option" where
  "range_iteratee P conn cls ps off lmt path accumulated tr =
     (case Collection_getItems P conn cls ps
             (off + int (length accumulated)) (chunk_limit lmt (length accumulated)) path of
        (Fulfilled items, evs) \<Rightarrow>
          (case items_length items of
             Inl e \<Rightarrow> Some (Rejected e, concat_items accumulated items, tr @ evs)
           | Inr len \<Rightarrow>
               if less_than P len REQUEST_CHUNK_SIZE
                  \<or> reached lmt (length (concat_items accumulated items))
               then Some (Fulfilled (Wire JUndefined), concat_items accumulated items, tr @ evs)
               else range_iteratee P conn cls ps off lmt path
                      (concat_items accumulated items) (tr @ evs))
      | (Rejected e, evs) \<Rightarrow> Some (Rejected e, accumulated, tr @ evs)
      | (Crashed e, evs) \<Rightarrow> Some (Crashed e, accumulated, tr @ evs))"

text \<open>
  \<open>_range\<close>, with its defaults \<open>offset = 0\<close> and \<open>limit = 100\<close>. With a callback the
  returned promise is fulfilled with what the callback returns, on success and on
  failure alike; without one it is fulfilled with the items or rejected with the error.
\<close>

definition Collection_range ::
  "platform \<Rightarrow> connection \<Rightarrow> model_class \<Rightarrow> params \<Rightarrow> int option \<Rightarrow> js_limit option \<Rightarrow>
   callback \<Rightarrow> string option \<Rightarrow> (outcome \<times> event list) option" where
  "Collection_range P conn cls ps off0 limit0 cb path =
     (case range_iteratee P conn cls ps
             (case off0 of None \<Rightarrow> 0 | Some k \<Rightarrow> k)
             (case limit0 of None \<Rightarrow> Limit 100 | Some l \<Rightarrow> l) path [] [] of
        None \<Rightarrow> None
      | Some (Fulfilled u, accumulated, tr) \<Rightarrow>
          Some (case cb of
                  Some r \<Rightarrow> (Promised (Fulfilled r), tr @ [Called None (Some (JList accumulated))])
                | None \<Rightarrow> (Promised (Fulfilled (JList accumulated)), tr))
      | Some (Rejected err, accumulated, tr) \<Rightarrow>
          Some (case cb of
                  Some r \<Rightarrow> (Promised (Fulfilled r), tr @ [Called (Some err) None])
                | None \<Rightarrow> (Promised (Rejected err), tr))
      | Some (Crashed err, accumulated, tr) \<Rightarrow> Some (Promised (Crashed err), tr))"

text \<open>\<open>params.limit || Infinity\<close>.\<close>

definition limit_or_Infinity :: "params \<Rightarrow> js_limit" where
  "limit_or_Infinity ps =
     (case limit ps of None \<Rightarrow> Unlimited | Some l \<Rightarrow> if l = 0 then Unlimited else Limit l)"

text \<open>\<open>list\<close>: \<open>params.limit || Infinity\<close> takes a limit of 0 for no limit.\<close>

definition Collection_list ::
  "platform \<Rightarrow> connection \<Rightarrow> model_class \<Rightarrow> params \<Rightarrow> callback \<Rightarrow> (outcome \<times> event list) option" where
  "Collection_list P conn cls ps cb =
     (if view_is P ps ''count''
      then Some (Promised (Rejected (Error ''list() cannot be called with the count view'')),
                 call cb (Some (Error ''list() cannot be called with the count view'')) None)
      else Collection_range P conn cls ps (offset ps) (Some (limit_or_Infinity ps)) cb None)"

text \<open>
  \<open>forEach\<close>. The \<open>iteratee\<close> hands every item of a chunk to the item callback,
  advances \<open>offset\<close> by the length of the chunk and calls itself unless the chunk was
  short.
\<close>

partial_function (option) forEach_iteratee ::
  "platform \<Rightarrow> connection \<Rightarrow> model_class \<Rightarrow> params \<Rightarrow> int \<Rightarrow> event list \<Rightarrow>
   (settle \<times> event list) option" where
  "forEach_iteratee P conn cls ps off tr =
     (case Collection_getItems P conn cls ps off REQUEST_CHUNK_SIZE None of
        (Fulfilled items, evs) \<Rightarrow>
          (case iterate_items items of
             Inl e \<Rightarrow> Some (Rejected e, tr @ evs)
           | Inr its \<Rightarrow>
               if int (length its) < REQUEST_CHUNK_SIZE
               then Some (Fulfilled (Wire JUndefined), tr @ evs @ map Item its)
               else forEach_iteratee P conn cls ps (off + int (length its))
                      (tr @ evs @ map Item its))
      | (Rejected e, evs) \<Rightarrow> Some (Rejected e, tr @ evs)
      | (Crashed e, evs) \<Rightarrow> Some (Crashed e, tr @ evs))"

text \<open>
  \<open>forEach\<close> returns at once: a rejected promise for the count view, \<open>undefined\<close>
  otherwise. The second component is what happens then and afterwards; \<open>None\<close> is a
  traversal that never ends.
\<close>

definition Collection_forEach ::
  "platform \<Rightarrow> connection \<Rightarrow> model_class \<Rightarrow> params \<Rightarrow> callback \<Rightarrow> outcome \<times> event list option" where
  "Collection_forEach P conn cls ps completeCallback =
     (if view_is P ps ''count''
      then (Promised (Rejected (Error ''forEach() cannot be called with the count view'')),
            Some (case completeCallback of
                    None \<Rightarrow> []
                  | Some r \<Rightarrow> [Completed (Some (Error ''forEach() cannot be called with the count view''))]))
      else (Returned (Wire JUndefined),
            (case forEach_iteratee P conn cls ps 0 [] of
               None \<Rightarrow> None
             | Some (Fulfilled u, tr) \<Rightarrow>
                 Some (tr @ (case completeCallback of None \<Rightarrow> [] | Some r \<Rightarrow> [Completed None]))
             | Some (Rejected err, tr) \<Rightarrow>
                 Some (tr @ (case completeCallback of None \<Rightarrow> [] | Some r \<Rightarrow> [Completed (Some err)]))
             | Some (Crashed err, tr) \<Rightarrow> Some tr)))"

text \<open>\<open>count\<close>: one request, with \<open>view: 'count'\<close> unless the parameters have a
  \<open>view\<close> of their own (\<open>{ view: 'count', ...params }\<close>); it resolves to
  \<open>json.count\<close>.\<close>

definition read_count :: "jsval \<Rightarrow> js_error + jsval" where
  "read_count v =
     (case as_json v of
        JNull \<Rightarrow> Inl (TypeError ''Cannot read properties of null'')
      | JUndefined \<Rightarrow> Inl (TypeError ''Cannot read properties of undefined'')
      | j \<Rightarrow> Inr (Wire (get_prop j ''count'')))"

definition Collection_count ::
  "platform \<Rightarrow> connection \<Rightarrow> model_class \<Rightarrow> params \<Rightarrow> callback \<Rightarrow> outcome \<times> event list" where
  "Collection_count P conn cls ps cb =
     (case then_catch cb read_count
             (NylasConnection_request P conn
                (request_for ''GET'' (Collection_path cls)
                   (Some (ps\<lparr>view := (case view ps of None \<Rightarrow> Some (JStr ''count'')
                                                     | Some v \<Rightarrow> Some v)\<rparr>)) None)) of
        (s, evs) \<Rightarrow> (Promised s, evs))"

text \<open>\<open>first\<close>: a chunk of one item at offset 0; it resolves to \<open>items[0]\<close>.\<close>

definition Collection_first ::
  "platform \<Rightarrow> connection \<Rightarrow> model_class \<Rightarrow> params \<Rightarrow> callback \<Rightarrow> outcome \<times> event list" where
  "Collection_first P conn cls ps cb =
     (if view_is P ps ''count''
      then (Promised (Rejected (Error ''first() cannot be called with the count view'')),
            call cb (Some (Error ''first() cannot be called with the count view'')) None)
      else case then_catch cb index0 (Collection_getItems P conn cls ps 0 1 None) of
             (s, evs) \<Rightarrow> (Promised s, evs))"

text \<open>
  An argument that may be a parameter object, a function or absent: \<open>find\<close>,
  \<open>delete\<close> and \<open>_save\<close> accept the callback in the place of the parameters.
\<close>

datatype arg = ArgNone | ArgObject params | ArgFunction jsval

text \<open>\<open>find\<close>: the callback used to be the second argument and the parameters the
  third, so each is looked for in both places.\<close>

definition find_callback :: "arg \<Rightarrow> arg \<Rightarrow> callback" where
  "find_callback paramsArg callbackArg =
     (case callbackArg of
        ArgFunction r \<Rightarrow> Some r
      | _ \<Rightarrow> (case paramsArg of ArgFunction r \<Rightarrow> Some r | _ \<Rightarrow> None))"

definition find_params :: "arg \<Rightarrow> arg \<Rightarrow> params" where
  "find_params paramsArg callbackArg =
     (case paramsArg of
        ArgObject p \<Rightarrow> p
      | _ \<Rightarrow> (case callbackArg of ArgObject p \<Rightarrow> p | _ \<Rightarrow> no_params))"

definition Collection_find ::
  "platform \<Rightarrow> connection \<Rightarrow> model_class \<Rightarrow> json \<Rightarrow> arg \<Rightarrow> arg \<Rightarrow> outcome \<times> event list" where
  "Collection_find P conn cls ident paramsArg callbackArg =
     (if \<not> truthy ident
      then (Promised (Rejected (Error ''find() must be called with an item id'')),
            call (find_callback paramsArg callbackArg)
              (Some (Error ''find() must be called with an item id'')) None)
      else if view_is P (find_params paramsArg callbackArg) ''count''
              \<or> view_is P (find_params paramsArg callbackArg) ''ids''
      then (Promised (Rejected (Error ''find() cannot be called with the count or ids view'')),
            call (find_callback paramsArg callbackArg)
              (Some (Error ''find() cannot be called with the count or ids view'')) None)
      else case then_catch (find_callback paramsArg callbackArg) Inr
                  (Collection_getModel P conn cls ident (find_params paramsArg callbackArg)) of
             (s, evs) \<Rightarrow> (Promised s, evs))"

text \<open>
  The methods of a model a subclass overrides: \<open>deleteRequestBody\<close>,
  \<open>deleteRequestQueryString\<close>, \<open>saveRequestBody\<close> (which throws when an attribute's
  \<open>toJSON\<close> does) and \<open>pathPrefix\<close>.
\<close>

record hooks =
  deleteRequestBody :: "params \<Rightarrow> jsval"
  deleteRequestQueryString :: "params \<Rightarrow> params"
  saveRequestBody :: "fields \<Rightarrow> js_error + jsval"
  pathPrefix :: string

definition RestfulModel_deleteRequestBody :: "params \<Rightarrow> jsval" where
  "RestfulModel_deleteRequestBody ps = Wire (JObj [])"

definition RestfulModel_deleteRequestQueryString :: "params \<Rightarrow> params" where
  "RestfulModel_deleteRequestQueryString ps = no_params"

definition Event_deleteRequestQueryString :: "params \<Rightarrow> params" where
  "Event_deleteRequestQueryString ps =
     (case map_of (filters ps) ''notify_participants'' of
        None \<Rightarrow> no_params
      | Some v \<Rightarrow> no_params\<lparr>filters := [(''notify_participants'', v)]\<rparr>)"

text \<open>\<open>build\<close>: an empty model, then every given field assigned.\<close>

definition Collection_build :: "platform \<Rightarrow> model_class \<Rightarrow> fields \<Rightarrow> jsval" where
  "Collection_build P cls args =
     (case Collection_createModel P cls (JObj []) of
        JModel c fs \<Rightarrow> JModel c (fold (\<lambda>(key, val). AList.update key val) args fs)
      | v \<Rightarrow> v)"

fun field :: "jsval \<Rightarrow> string \<Rightarrow> jsval" where
  "field (JModel c fs) k = (case map_of fs k of None \<Rightarrow> Wire JUndefined | Some v \<Rightarrow> v)"
| "field v k = Wire JUndefined"

record delete_options =
  del_item :: jsval
  del_callback :: callback
  del_body :: "jsval option"
  del_qs :: "params option"

definition Collection_deleteItem ::
  "platform \<Rightarrow> connection \<Rightarrow> model_class \<Rightarrow> hooks \<Rightarrow> delete_options \<Rightarrow> callback \<Rightarrow>
   outcome \<times> event list" where
  "Collection_deleteItem P conn cls H opts callbackArg =
     (let item = del_item opts;
          cb = (case del_callback opts of Some r \<Rightarrow> Some r | None \<Rightarrow> callbackArg);
          body = (case del_body opts of Some b \<Rightarrow> b | None \<Rightarrow> deleteRequestBody H no_params);
          qs = (case del_qs opts of Some q \<Rightarrow> q | None \<Rightarrow> deleteRequestQueryString H no_params)
      in case then_catch cb Inr
                (NylasConnection_request P conn
                   (request_for ''DELETE''
                      (Collection_path cls @ ''/'' @ to_string_val P (field item ''id''))
                      (Some qs) (Some body))) of
           (s, evs) \<Rightarrow> (Promised s, evs))"

datatype item_or_id = NoItem | ById string | AnItem jsval

fun falsy_item :: "item_or_id \<Rightarrow> bool" where
  "falsy_item NoItem = True"
| "falsy_item (ById s) = (s = [])"
| "falsy_item (AnItem v) = False"

text \<open>
  \<open>if (typeof params === 'function') { callback = params; params = {} }\<close>, as
  \<open>delete\<close> and \<open>_save\<close> have it.
\<close>

definition swapped_callback :: "arg \<Rightarrow> callback \<Rightarrow> callback" where
  "swapped_callback paramsArg callbackArg =
     (case paramsArg of ArgFunction r \<Rightarrow> Some r | _ \<Rightarrow> callbackArg)"

definition swapped_params :: "arg \<Rightarrow> params" where
  "swapped_params paramsArg = (case paramsArg of ArgObject p \<Rightarrow> p | _ \<Rightarrow> no_params)"

text \<open>
  \<open>delete\<close>. The check of \<open>itemOrId\<close> comes before the callback is taken from the
  place of the parameters.
\<close>

definition Collection_delete ::
  "platform \<Rightarrow> connection \<Rightarrow> model_class \<Rightarrow> hooks \<Rightarrow> item_or_id \<Rightarrow> arg \<Rightarrow> callback \<Rightarrow>
   outcome \<times> event list" where
  "Collection_delete P conn cls H itemOrId paramsArg callbackArg =
     (if falsy_item itemOrId
      then (Promised (Rejected (Error ''delete() requires an item or an id'')),
            call callbackArg (Some (Error ''delete() requires an item or an id'')) None)
      else
        (let cb = swapped_callback paramsArg callbackArg;
             ps = swapped_params paramsArg;
             item = (case itemOrId of
                       ById s \<Rightarrow> Collection_build P cls [(''id'', Wire (JStr s))]
                     | AnItem v \<Rightarrow> v
                     | NoItem \<Rightarrow> Wire JUndefined)
         in Collection_deleteItem P conn cls H
              \<lparr>del_item = item, del_callback = None,
               del_body = Some (deleteRequestBody H ps),
               del_qs = Some (deleteRequestQueryString H ps)\<rparr> cb))"

section \<open>Saving a model\<close>

text \<open>
  \<open>RestfulModel._save\<close> on an instance of class \<open>cls\<close> with fields \<open>fs\<close>: PUT with an
  \<open>id\<close>, POST without; on success the instance is re-hydrated from the body with
  \<open>this.fromJSON(json)\<close> and is what the promise and the callback receive. The third
  component is the fields of the instance afterwards.
\<close>

definition save_request ::
  "platform \<Rightarrow> model_class \<Rightarrow> hooks \<Rightarrow> fields \<Rightarrow> params \<Rightarrow> jsval \<Rightarrow> options" where
  "save_request P cls H fs ps body =
     (let this_id = field (JModel cls fs) ''id'';
          saveEndpoint = pathPrefix H @ ''/'' @ collectionName cls
      in request_for (if truthy_val this_id then ''PUT'' else ''POST'')
           (if truthy_val this_id then saveEndpoint @ ''/'' @ to_string_val P this_id
            else saveEndpoint)
           (Some ps) (Some body))"

text \<open>The handlers \<open>.then(json => { this.fromJSON(json); ... return this })
  .catch(err => { callback(err); return Promise.reject(err) })\<close>.\<close>

definition rehydrate ::
  "platform \<Rightarrow> model_class \<Rightarrow> fields \<Rightarrow> callback \<Rightarrow> settle \<times> event list \<Rightarrow>
   outcome \<times> event list \<times> fields" where
  "rehydrate P cls fs cb r =
     (case r of
        (Fulfilled json, evs) \<Rightarrow>
          (case RestfulModel_fromJSON P cls (as_json json) fs of
             Inr fs' \<Rightarrow>
               (Promised (Fulfilled (JModel cls fs')),
                evs @ call cb None (Some (JModel cls fs')), fs')
           | Inl e \<Rightarrow> (Promised (Rejected e), evs @ call cb (Some e) None, fs))
      | (Rejected e, evs) \<Rightarrow> (Promised (Rejected e), evs @ call cb (Some e) None, fs)
      | (Crashed e, evs) \<Rightarrow> (Promised (Crashed e), evs, fs))"

definition RestfulModel_save ::
  "platform \<Rightarrow> connection \<Rightarrow> model_class \<Rightarrow> hooks \<Rightarrow> fields \<Rightarrow> arg \<Rightarrow> callback \<Rightarrow>
   outcome \<times> event list \<times> fields" where
  "RestfulModel_save P conn cls H fs paramsArg callbackArg =
     (case saveRequestBody H fs of
        Inl e \<Rightarrow> (Threw e, [], fs)
      | Inr body \<Rightarrow>
          rehydrate P cls fs (swapped_callback paramsArg callbackArg)
            (NylasConnection_request P conn
               (save_request P cls H fs (swapped_params paramsArg) body)))"

section \<open>The schemas of the repository\<close>

definition RestfulModel_attributes :: "attribute list" where
  "RestfulModel_attributes =
     [Attribute ''id'' ''id'' ''id'' KString,
      Attribute ''object'' ''object'' ''object'' KString,
      Attribute ''accountId'' ''accountId'' ''account_id'' KString]"

definition Calendar :: model_class where
  "Calendar = ModelClass ''Calendar'' ''calendars''
     (RestfulModel_attributes @
      [Attribute ''name'' ''name'' ''name'' KString,
       Attribute ''description'' ''description'' ''description'' KString,
       Attribute ''readOnly'' ''readOnly'' ''read_only'' KBoolean,
       Attribute ''location'' ''location'' ''location'' KString,
       Attribute ''timezone'' ''timezone'' ''timezone'' KString,
       Attribute ''isPrimary'' ''isPrimary'' ''is_primary'' KBoolean,
       Attribute ''jobStatusId'' ''jobStatusId'' ''job_status_id'' KString])"

definition EventParticipant :: model_class where
  "EventParticipant = ModelClass ''EventParticipant'' ''event-participants''
     [Attribute ''name'' ''name'' ''name'' KString,
      Attribute ''email'' ''email'' ''email'' KString,
      Attribute ''status'' ''status'' ''status'' KString]"

definition Event :: model_class where
  "Event = ModelClass ''Event'' ''events''
     (RestfulModel_attributes @
      [Attribute ''calendarId'' ''calendarId'' ''calendar_id'' KString,
       Attribute ''masterEventId'' ''masterEventId'' ''master_event_id'' KString,
       Attribute ''iCalUID'' ''iCalUID'' ''ical_uid'' KString,
       Attribute ''messageId'' ''messageId'' ''message_id'' KString,
       Attribute ''title'' ''title'' ''title'' KString,
       Attribute ''description'' ''description'' ''description'' KString,
       Attribute ''owner'' ''owner'' ''owner'' KString,
       Attribute ''participants'' ''participants'' ''participants'' (KCollection EventParticipant),
       Attribute ''readOnly'' ''readOnly'' ''read_only'' KBoolean,
       Attribute ''location'' ''location'' ''location'' KString,
       Attribute ''when'' ''when'' ''when'' KObject,
       Attribute ''busy'' ''busy'' ''busy'' KBoolean,
       Attribute ''status'' ''status'' ''status'' KString,
       Attribute ''recurrence'' ''recurrence'' ''recurrence'' KObject])"

definition Account :: model_class where
  "Account = ModelClass ''Account'' ''accounts''
     (RestfulModel_attributes @
      [Attribute ''name'' ''name'' ''name'' KString,
       Attribute ''emailAddress'' ''emailAddress'' ''email_address'' KString,
       Attribute ''provider'' ''provider'' ''provider'' KString,
       Attribute ''organizationUnit'' ''organizationUnit'' ''organization_unit'' KString,
       Attribute ''syncState'' ''syncState'' ''sync_state'' KString,
       Attribute ''billingState'' ''billingState'' ''billing_state'' KString,
       Attribute ''linkedAt'' ''linkedAt'' ''linked_at'' KDateTime])"

text \<open>
  \<open>Calendar.saveRequestBody\<close>: the four fields a calendar may update, read from
  \<open>this.toJSON()\<close>. The attributes of a calendar are strings and booleans, whose
  \<open>toJSON\<close> returns the field as it is and does not throw; the declared types of the
  fields are \<open>string\<close> and \<open>boolean\<close>, so they hold plain values.
\<close>

definition Calendar_saveRequestBody :: "fields \<Rightarrow> js_error + jsval" where
  "Calendar_saveRequestBody fs =
     Inr (Wire (JObj
       [(''name'', as_json (field (JModel Calendar fs) ''name'')),
        (''description'', as_json (field (JModel Calendar fs) ''description'')),
        (''location'', as_json (field (JModel Calendar fs) ''location'')),
        (''timezone'', as_json (field (JModel Calendar fs) ''timezone''))]))"

definition Calendar_hooks :: hooks where
  "Calendar_hooks =
     \<lparr>deleteRequestBody = RestfulModel_deleteRequestBody,
      deleteRequestQueryString = RestfulModel_deleteRequestQueryString,
      saveRequestBody = Calendar_saveRequestBody,
      pathPrefix = []\<rparr>"

section \<open>The environment of the examples and of the paging theorems\<close>

text \<open>The window \<open>(offset, limit)\<close> a listing request asks for.\<close>

definition window :: "options \<Rightarrow> int option \<times> int option" where
  "window ro = (case opt_qs ro of None \<Rightarrow> (None, None) | Some q \<Rightarrow> (offset q, limit q))"


text \<open>
  A server that holds a sequence of items and answers a listing request with status
  200 and the page \<open>items[offset .. offset + limit)\<close>, under the response headers
  \<open>hs\<close>; the request at an offset that \<open>failing\<close> names reaches no server and ends
  in that error.
\<close>

definition page :: "'a list \<Rightarrow> int option \<times> int option \<Rightarrow> 'a list" where
  "page items w =
     (let rest = drop (nat (case fst w of None \<Rightarrow> 0 | Some k \<Rightarrow> k)) items
      in case snd w of None \<Rightarrow> rest | Some l \<Rightarrow> take (nat l) rest)"

definition paging_server ::
  "json list \<Rightarrow> (string \<times> string) list \<Rightarrow> (int \<Rightarrow> js_error option) \<Rightarrow> options \<Rightarrow> raw" where
  "paging_server items hs failing ro =
     (case failing (case fst (window ro) of None \<Rightarrow> 0 | Some k \<Rightarrow> k) of
        Some e \<Rightarrow> (Some e, None, JUndefined)
      | None \<Rightarrow> (None, Some \<lparr>statusCode = 200, headers = hs\<rparr>, JArr (page items (window ro))))"

text \<open>
  A platform for the examples. It is total, and agrees with ECMAScript on the inputs
  the examples give it: the two date strings, their time value, and the strings
  \<open>count\<close> and \<open>ids\<close>, which are no numbers.
\<close>

definition sample_platform :: platform where
  "sample_platform =
     \<lparr>number_toString = (\<lambda>r. if r = 404 then ''404'' else ''0''),
      string_toNumber = (\<lambda>s. NaN),
      date_parse = (\<lambda>s. if s = ''2020-01-01'' \<or> s = ''2020-01-01T00:00:00.000Z''
                         then Some 1577836800000 else None),
      date_toISOString = (\<lambda>t. if t = 1577836800000 then ''2020-01-01T00:00:00.000Z'' else []),
      json_parse = (\<lambda>s. None),
      native_toString = (\<lambda>v. ''[object Object]'')\<rparr>"

definition sample_config :: config where
  "sample_config = \<lparr>apiServer = ''https://api.nylas.com'', clientSecret = None, SDK_VERSION = ''4.7.0''\<rparr>"

definition sample_connection :: "(options \<Rightarrow> raw) \<Rightarrow> connection" where
  "sample_connection t =
     \<lparr>accessToken = Some ''token'', clientId = Some ''client'', conf = sample_config, transport = t\<rparr>"

section \<open>Reading a run\<close>

text \<open>The requests of a run, the calls of the trailing callback, the items handed to
  the item callback and the calls of the completion callback, each in order.\<close>

fun requests_of :: "event list \<Rightarrow> options list" where
  "requests_of [] = []"
| "requests_of (Requested ro # evs) = ro # requests_of evs"
| "requests_of (e # evs) = requests_of evs"

fun calls_of :: "event list \<Rightarrow> (js_error option \<times> jsval option) list" where
  "calls_of [] = []"
| "calls_of (Called err res # evs) = (err, res) # calls_of evs"
| "calls_of (e # evs) = calls_of evs"

fun items_of :: "event list \<Rightarrow> jsval list" where
  "items_of [] = []"
| "items_of (Item v # evs) = v # items_of evs"
| "items_of (e # evs) = items_of evs"

fun completions_of :: "event list \<Rightarrow> js_error option list" where
  "completions_of [] = []"
| "completions_of (Completed err # evs) = err # completions_of evs"
| "completions_of (e # evs) = completions_of evs"

fun warnings_of :: "event list \<Rightarrow> string list" where
  "warnings_of [] = []"
| "warnings_of (Warned w # evs) = w # warnings_of evs"
| "warnings_of (e # evs) = warnings_of evs"

text \<open>
  The zero value the specification names for a kind: the empty string for String, the
  empty list for StringList and Collection, false for Boolean, null for the others.
\<close>

fun zero_value :: "attr_kind \<Rightarrow> jsval" where
  "zero_value KString = Wire (JStr [])"
| "zero_value KStringList = Wire (JArr [])"
| "zero_value (KCollection c) = JList []"
| "zero_value KBoolean = Wire (JBool False)"
| "zero_value k = Wire JNull"

text \<open>Two servers for the examples: one that answers every request with 404 and
  the body \<open>{message: "not found"}\<close>, one that answers 200 with a given body.\<close>

definition not_found_server :: "options \<Rightarrow> raw" where
  "not_found_server ro =
     (None, Some \<lparr>statusCode = 404, headers = []\<rparr>, JObj [(''message'', JStr ''not found'')])"

definition ok_server :: "json \<Rightarrow> options \<Rightarrow> raw" where
  "ok_server body ro = (None, Some \<lparr>statusCode = 200, headers = []\<rparr>, body)"

text \<open>What a callback has been told when an operation failed with \<open>e\<close>: one call
  with the error and no result, if there is a callback.\<close>

definition reported :: "callback \<Rightarrow> js_error \<Rightarrow> (js_error option \<times> jsval option) list" where
  "reported cb e = (case cb of None \<Rightarrow> [] | Some r \<Rightarrow> [(Some e, None)])"

text \<open>A connection that reaches no server: every request ends in a transport error.\<close>

definition unreachable :: "js_error \<Rightarrow> options \<Rightarrow> raw" where
  "unreachable e ro = (Some e, None, JUndefined)"

text \<open>
  What a traversal makes of a page of JSON: with the \<open>ids\<close> view the elements as
  they are, otherwise a model of each.
\<close>

definition made :: "platform \<Rightarrow> model_class \<Rightarrow> params \<Rightarrow> json list \<Rightarrow> jsval list" where
  "made P cls ps xs =
     (if view_is P ps ''ids'' then map Wire xs else map (Collection_createModel P cls) xs)"

text \<open>
  The plan the specification gives for \<open>list\<close>: against \<open>n\<close> items, chunk \<open>k\<close> is
  asked for at offset \<open>off + 100 k\<close> with the limit \<open>min(100, L - 100 k)\<close>; the chunks
  end with the first that is short or reaches the limit, which makes this many chunks;
  and the items returned are the first \<open>L\<close>.
\<close>

definition chunks_needed :: "js_limit \<Rightarrow> nat \<Rightarrow> nat" where
  "chunks_needed lmt n =
     (case lmt of
        Limit l \<Rightarrow> if nat l \<le> n then (nat l + 99) div 100 else n div 100 + 1
      | Unlimited \<Rightarrow> n div 100 + 1)"

definition expected_windows ::
  "int \<Rightarrow> js_limit \<Rightarrow> nat \<Rightarrow> nat \<Rightarrow> (int option \<times> int option) list" where
  "expected_windows off lmt j m =
     map (\<lambda>k. (Some (off + int (100 * k)), Some (chunk_limit lmt (100 * k)))) [j..<m]"

definition bounded :: "js_limit \<Rightarrow> 'a list \<Rightarrow> 'a list" where
  "bounded lmt xs = (case lmt of Limit l \<Rightarrow> take (nat l) xs | Unlimited \<Rightarrow> xs)"

text \<open>The offsets a run asks for, in order.\<close>

definition offsets_of :: "event list \<Rightarrow> int list" where
  "offsets_of tr = map (\<lambda>ro. case fst (window ro) of None \<Rightarrow> 0 | Some k \<Rightarrow> k) (requests_of tr)"

text \<open>
  A run of \<open>forEach\<close> keeps to its cursor when every request asks for 100 items at
  the offset that equals the number of items handed to the item callback before it
  (\<open>n\<close> of them before the run).
\<close>

fun follows :: "int \<Rightarrow> event list \<Rightarrow> bool" where
  "follows n [] = True"
| "follows n (Requested ro # evs) = (window ro = (Some n, Some 100) \<and> follows n evs)"
| "follows n (Item v # evs) = follows (n + 1) evs"
| "follows n (e # evs) = follows n evs"

text \<open>
  Against a server that fails at some offsets, the traversal of \<open>forEach\<close> over \<open>n\<close>
  items asks for the chunks at the offsets 0, 100, ... in turn; the first of them
  at which the server fails, if there is one, is where it ends.
\<close>

definition first_failure :: "(int \<Rightarrow> js_error option) \<Rightarrow> nat \<Rightarrow> nat option" where
  "first_failure failing n =
     find (\<lambda>k. failing (int (100 * k)) \<noteq> None) [0..<Suc (n div 100)]"

section \<open>Properties: attribute coercions\<close>

lemmas coercion_defs =
  Attribute_fromJSON_def AttributeNumber_fromJSON_def AttributeBoolean_fromJSON_def
  AttributeString_fromJSON_def AttributeStringList_fromJSON_def AttributeDate_fromJSON_def
  AttributeDateTime_fromJSON_def isNaN_def

text \<open>
  C7, as the code has it. \<open>fromJSON\<close> of every kind is a total function (it has no
  error result: no branch of it throws), and on an absent input, \<open>undefined\<close> or
  \<open>null\<close>, it returns the zero value of the kind: the empty string for String, the
  empty list for StringList and Collection, false for Boolean, null for Date, DateTime,
  Object and the base Attribute. Number is the exception: \<open>isNaN(null)\<close> is false, so
  \<open>null\<close> becomes \<open>Number(null)\<close>, which is 0, and only \<open>undefined\<close> becomes null.
\<close>

theorem fromJSON_absent_zero_value:
  "attr_fromJSON P k JUndefined = zero_value k \<and>
   attr_fromJSON P k JNull = (if k = KNumber then Wire (JNum (Fin 0)) else zero_value k)"
  by (cases k) (simp_all add: coercion_defs)

theorem fromJSON_absent_zero_value_witness:
  "attr_fromJSON sample_platform (KCollection EventParticipant) JUndefined = JList [] \<and>
   attr_fromJSON sample_platform KDateTime JNull = Wire JNull"
  using fromJSON_absent_zero_value [of sample_platform "KCollection EventParticipant"]
        fromJSON_absent_zero_value [of sample_platform KDateTime]
  by simp

text \<open>The claim as stated fails at the kind Number and the input \<open>null\<close>.\<close>

theorem number_fromJSON_null_counterexample:
  "attr_fromJSON sample_platform KNumber JNull = Wire (JNum (Fin 0)) \<and>
   attr_fromJSON sample_platform KNumber JNull \<noteq> zero_value KNumber"
  by (simp add: coercion_defs)

lemma trunc_of_int: "trunc (of_int k) = k"
  by (simp add: trunc_def)

lemma trunc_close: "\<bar>of_int (trunc r) - r\<bar> < 1"
  unfolding trunc_def by (auto; linarith)




section \<open>Properties: the request dispatcher\<close>

lemma sdk_num: "parseInt (before_dash SUPPORTED_API_VERSION) = Some 2"
  by code_simp

lemma default_method_keeps:
  "opt_json (default_method x) = opt_json x"
  "opt_downloadRequest (default_method x) = opt_downloadRequest x"
  "opt_qs (default_method x) = opt_qs x"
  by (simp_all add: default_method_def)

lemma default_url_keeps:
  "opt_json (default_url c x) = opt_json x"
  "opt_downloadRequest (default_url c x) = opt_downloadRequest x"
  "opt_qs (default_url c x) = opt_qs x"
  by (simp_all add: default_url_def)

lemma default_body_keeps:
  "opt_json (default_body x) = opt_json x"
  "opt_downloadRequest (default_body x) = opt_downloadRequest x"
  "opt_qs (default_body x) = opt_qs x"
  by (simp_all add: default_body_def)

lemma default_json_keeps:
  "opt_json (default_json x) = (if opt_json x = None then Some True else opt_json x)"
  "opt_downloadRequest (default_json x) = opt_downloadRequest x"
  "opt_qs (default_json x) = opt_qs x"
  by (simp_all add: default_json_def)

lemma expand_view_keeps:
  "opt_json (expand_view x) = opt_json x"
  "opt_downloadRequest (expand_view x) = opt_downloadRequest x"
  by (simp_all add: expand_view_def split: option.splits)

lemma expand_view_window: "window (expand_view x) = window x"
  by (simp add: expand_view_def window_def split: option.splits)

lemma set_auth_keeps:
  "opt_json (set_auth c x) = opt_json x"
  "opt_downloadRequest (set_auth c x) = opt_downloadRequest x"
  "opt_qs (set_auth c x) = opt_qs x"
  by (simp_all add: set_auth_def Let_def)

lemma set_headers_keeps:
  "opt_json (set_headers c x) = opt_json x"
  "opt_downloadRequest (set_headers c x) = opt_downloadRequest x"
  "opt_qs (set_headers c x) = opt_qs x"
  by (simp_all add: set_headers_def)

lemmas step_keeps = default_method_keeps default_url_keeps default_body_keeps default_json_keeps
  expand_view_keeps set_auth_keeps set_headers_keeps

lemma requestOptions_json:
  "opt_json (requestOptions conn opts) = (if opt_json opts = None then Some True else opt_json opts)"
  by (simp add: requestOptions_def step_keeps)

lemma requestOptions_downloadRequest:
  "opt_downloadRequest (requestOptions conn opts) = opt_downloadRequest opts"
  by (simp add: requestOptions_def step_keeps)

lemma requestOptions_window: "window (requestOptions conn opts) = window opts"
proof -
  have "window (requestOptions conn opts)
          = window (expand_view (default_json (default_body (default_url conn (default_method opts)))))"
    by (simp add: requestOptions_def window_def step_keeps)
  also have "\<dots> = window opts"
    by (simp add: expand_view_window) (simp add: window_def step_keeps)
  finally show ?thesis .
qed

lemma steps_transport:
  "default_url (conn\<lparr>transport := t\<rparr>) x = default_url conn x"
  "set_auth (conn\<lparr>transport := t\<rparr>) x = set_auth conn x"
  "set_headers (conn\<lparr>transport := t\<rparr>) x = set_headers conn x"
  by (simp_all add: default_url_def set_auth_def set_headers_def cong: option.case_cong)

lemma requestOptions_transport:
  "requestOptions (conn\<lparr>transport := t\<rparr>) opts = requestOptions conn opts"
  by (simp only: requestOptions_def steps_transport)

lemma request_no_response:
  "transport conn (requestOptions conn opts) = (err, None, b) \<Longrightarrow>
   NylasConnection_request P conn opts
     = (Rejected (case err of Some e \<Rightarrow> e | None \<Rightarrow> Error ''No response''),
        [Requested (requestOptions conn opts)])"
  by (simp add: NylasConnection_request_def)

lemma request_response:
  "transport conn (requestOptions conn opts) = (err, Some resp, b) \<Longrightarrow>
   NylasConnection_request P conn opts
     = ((case parsed_body P (requestOptions conn opts) b of
              None \<Rightarrow> Crashed (JsError ''SyntaxError'' ''Unexpected token'' None)
            | Some body \<Rightarrow> settle_response P (requestOptions conn opts) err resp body),
        Requested (requestOptions conn opts) # version_warnings resp)"
  by (simp add: NylasConnection_request_def)

text \<open>
  C9, as the code has it. \<open>request\<close> compares the \<open>nylas-api-version\<close> header of
  every response with the supported version 2.1. When the header is present, not
  empty and different, it logs a warning that names both versions; the warning adds
  which side to update when the integers that \<open>parseInt\<close> reads before the first
  \<open>-\<close> differ (the API when the server's is smaller than 2, the SDK when it is
  larger), and nothing when they are equal or no numbers. An absent or empty header
  gives no warning. The warning is an event and nothing else: how the promise ends is
  the same under any other headers (a download request resolves with the response it
  received, headers included), and the warnings logged are exactly that one.
\<close>

theorem version_warning:
  "(api \<noteq> [] \<and> api \<noteq> SUPPORTED_API_VERSION \<longrightarrow>
      getWarningForVersion (Some SUPPORTED_API_VERSION) (Some api)
        = warning_base SUPPORTED_API_VERSION api @
          (case parseInt (before_dash api) of
             None \<Rightarrow> []
           | Some n \<Rightarrow> if n < 2 then update_api else if 2 < n then update_sdk else []))
   \<and> getWarningForVersion (Some SUPPORTED_API_VERSION) None = []
   \<and> getWarningForVersion (Some SUPPORTED_API_VERSION) (Some []) = []
   \<and> getWarningForVersion (Some SUPPORTED_API_VERSION) (Some SUPPORTED_API_VERSION) = []
   \<and> fst (NylasConnection_request P
             (conn\<lparr>transport := \<lambda>ro. (err, Some \<lparr>statusCode = c, headers = hs'\<rparr>, body)\<rparr>) opts)
       = (case fst (NylasConnection_request P
             (conn\<lparr>transport := \<lambda>ro. (err, Some \<lparr>statusCode = c, headers = hs\<rparr>, body)\<rparr>) opts) of
            Fulfilled (JResponse r) \<Rightarrow> Fulfilled (JResponse (r\<lparr>headers := hs'\<rparr>))
          | s \<Rightarrow> s)
   \<and> warnings_of (snd (NylasConnection_request P
             (conn\<lparr>transport := \<lambda>ro. (err, Some \<lparr>statusCode = c, headers = hs\<rparr>, body)\<rparr>) opts))
       = (if getWarningForVersion (Some SUPPORTED_API_VERSION) (map_of hs ''nylas-api-version'') = []
          then []
          else [getWarningForVersion (Some SUPPORTED_API_VERSION) (map_of hs ''nylas-api-version'')])"
proof (intro conjI impI)
  assume "api \<noteq> [] \<and> api \<noteq> SUPPORTED_API_VERSION"
  moreover have "SUPPORTED_API_VERSION \<noteq> []" by (simp add: SUPPORTED_API_VERSION_def)
  ultimately show "getWarningForVersion (Some SUPPORTED_API_VERSION) (Some api)
        = warning_base SUPPORTED_API_VERSION api @
          (case parseInt (before_dash api) of
             None \<Rightarrow> []
           | Some n \<Rightarrow> if n < 2 then update_api else if 2 < n then update_sdk else [])"
    by (auto simp add: getWarningForVersion_def sdk_num num_gt_def Let_def split: option.splits)
next
  show "getWarningForVersion (Some SUPPORTED_API_VERSION) None = []"
    by (simp add: getWarningForVersion_def)
  show "getWarningForVersion (Some SUPPORTED_API_VERSION) (Some []) = []"
    by (simp add: getWarningForVersion_def)
  show "getWarningForVersion (Some SUPPORTED_API_VERSION) (Some SUPPORTED_API_VERSION) = []"
    by (simp add: getWarningForVersion_def)
  let ?c = "\<lambda>h. conn\<lparr>transport := \<lambda>ro. (err, Some \<lparr>statusCode = c, headers = h\<rparr>, body)\<rparr>"
  have r: "\<And>h. NylasConnection_request P (?c h) opts
     = ((case parsed_body P (requestOptions conn opts) body of
              None \<Rightarrow> Crashed (JsError ''SyntaxError'' ''Unexpected token'' None)
            | Some b \<Rightarrow> settle_response P (requestOptions conn opts) err \<lparr>statusCode = c, headers = h\<rparr> b),
        Requested (requestOptions conn opts) # version_warnings \<lparr>statusCode = c, headers = h\<rparr>)"
    by (simp add: request_response requestOptions_transport cong: option.case_cong)
  show "fst (NylasConnection_request P (?c hs') opts)
       = (case fst (NylasConnection_request P (?c hs) opts) of
            Fulfilled (JResponse r) \<Rightarrow> Fulfilled (JResponse (r\<lparr>headers := hs'\<rparr>))
          | s \<Rightarrow> s)"
    by (simp add: r settle_response_def classify_error_def Let_def split: option.splits)
  show "warnings_of (snd (NylasConnection_request P (?c hs) opts))
       = (if getWarningForVersion (Some SUPPORTED_API_VERSION) (map_of hs ''nylas-api-version'') = []
          then []
          else [getWarningForVersion (Some SUPPORTED_API_VERSION) (map_of hs ''nylas-api-version'')])"
    by (simp add: r version_warnings_def Let_def)
qed

theorem version_warning_witness:
  "getWarningForVersion (Some SUPPORTED_API_VERSION) (Some ''3.0'')
     = warning_base SUPPORTED_API_VERSION ''3.0'' @ update_sdk"
proof -
  have n: "parseInt (before_dash ''3.0'') = Some 3"
    by code_simp
  have d: "''3.0'' \<noteq> [] \<and> ''3.0'' \<noteq> SUPPORTED_API_VERSION"
    by (simp add: SUPPORTED_API_VERSION_def)
  show ?thesis
    using version_warning [of "''3.0''"] n d by simp
qed

text \<open>
  The claim as stated fails for the server version 2.2, which differs from 2.1 and is
  newer: the warning names the two versions and no side; and for a response without
  the header, where nothing is logged.
\<close>

theorem version_warning_counterexample:
  "getWarningForVersion (Some SUPPORTED_API_VERSION) (Some ''2.2'')
     = warning_base ''2.1'' ''2.2''
   \<and> getWarningForVersion (Some SUPPORTED_API_VERSION) None = []"
  by code_simp

text \<open>
  C4, as the code has it. For a response that came without a transport error, with a
  body other than \<open>null\<close>, to a request that did not ask for an unparsed body: a status
  above 299 rejects with an \<open>Error\<close> whose \<open>statusCode\<close> is the status and whose
  message is the body's \<open>message\<close> (empty when the body has none), replaced by
  \<open>message: missing_fields\<close> when the body has \<open>missing_fields\<close>, and followed by
  the \<open>server_error\<close> in parentheses when the body has one; a status of at most 299
  resolves with the body, or with the response itself when the request is a download
  request.
\<close>

theorem request_classifies:
  assumes "transport conn (requestOptions conn opts) = (None, Some resp, body0)"
      and "opt_json opts \<noteq> Some False"
      and "body0 \<noteq> JNull"
      and "body = (if body0 = JUndefined then JObj [] else body0)"
  shows "(299 < statusCode resp \<longrightarrow>
            fst (NylasConnection_request P conn opts)
              = Rejected (JsError ''Error''
                  ((if truthy (get_prop body ''missing_fields'')
                    then to_string P (get_prop body ''message'') @ '': '' @
                         to_string P (get_prop body ''missing_fields'')
                    else if get_prop body ''message'' = JUndefined then []
                    else to_string P (get_prop body ''message''))
                   @ (if truthy (get_prop body ''server_error'')
                      then '' (Server Error:'' @ nl @ ''              '' @
                           to_string P (get_prop body ''server_error'') @ nl @ ''            )''
                      else []))
                  (Some (statusCode resp))))
       \<and> (statusCode resp \<le> 299 \<longrightarrow>
            fst (NylasConnection_request P conn opts)
              = Fulfilled (if opt_downloadRequest opts then JResponse resp else Wire body))"
proof -
  have pb: "parsed_body P (requestOptions conn opts) body0 = Some body"
    using assms(2,4) by (simp add: parsed_body_def requestOptions_json)
  have nn: "body \<noteq> JNull" "body \<noteq> JUndefined"
    using assms(3,4) by auto
  have r: "fst (NylasConnection_request P conn opts)
             = settle_response P (requestOptions conn opts) None resp body"
    by (simp add: request_response [OF assms(1)] pb)
  show ?thesis
    unfolding r using nn
    by (simp add: settle_response_def requestOptions_downloadRequest classify_error_def
          new_Error_def Error_def set_message_def set_statusCode_def Let_def)
qed

theorem request_classifies_witness:
  "fst (NylasConnection_request sample_platform (sample_connection not_found_server)
          (request_for ''GET'' ''/events/e1'' None None))
     = Rejected (JsError ''Error'' ''not found'' (Some 404))"
proof -
  have t: "transport (sample_connection not_found_server)
             (requestOptions (sample_connection not_found_server)
                (request_for ''GET'' ''/events/e1'' None None))
           = (None, Some \<lparr>statusCode = 404, headers = []\<rparr>, JObj [(''message'', JStr ''not found'')])"
    by (simp add: sample_connection_def not_found_server_def)
  have j: "opt_json (request_for ''GET'' ''/events/e1'' None None) \<noteq> Some False"
    by (simp add: request_for_def)
  show ?thesis
    using request_classifies [OF t j, of "JObj [(''message'', JStr ''not found'')]" sample_platform]
    by simp
qed

text \<open>The claim as stated fails for a download request: a 200 response resolves with
  the response object, not with the body.\<close>

theorem request_download_counterexample:
  "fst (NylasConnection_request sample_platform
          (sample_connection (ok_server (JObj [(''id'', JStr ''f1'')])))
          ((request_for ''GET'' ''/files/f1/download'' None None)\<lparr>opt_downloadRequest := True\<rparr>))
     = Fulfilled (JResponse \<lparr>statusCode = 200, headers = []\<rparr>)
   \<and> fst (NylasConnection_request sample_platform
          (sample_connection (ok_server (JObj [(''id'', JStr ''f1'')])))
          ((request_for ''GET'' ''/files/f1/download'' None None)\<lparr>opt_downloadRequest := True\<rparr>))
     \<noteq> Fulfilled (Wire (JObj [(''id'', JStr ''f1'')]))"
  by (simp add: NylasConnection_request_def sample_connection_def ok_server_def parsed_body_def
        settle_response_def requestOptions_json requestOptions_downloadRequest request_for_def)

section \<open>Properties: the events of a run\<close>

lemma requests_of_append [simp]: "requests_of (xs @ ys) = requests_of xs @ requests_of ys"
  by (induction xs rule: requests_of.induct) simp_all

lemma calls_of_append [simp]: "calls_of (xs @ ys) = calls_of xs @ calls_of ys"
  by (induction xs rule: calls_of.induct) simp_all

lemma items_of_append [simp]: "items_of (xs @ ys) = items_of xs @ items_of ys"
  by (induction xs rule: items_of.induct) simp_all

lemma completions_of_append [simp]:
  "completions_of (xs @ ys) = completions_of xs @ completions_of ys"
  by (induction xs rule: completions_of.induct) simp_all

lemma call_events [simp]:
  "requests_of (call cb err res) = []"
  "calls_of (call cb err res) = (case cb of None \<Rightarrow> [] | Some r \<Rightarrow> [(err, res)])"
  "items_of (call cb err res) = []"
  "completions_of (call cb err res) = []"
  by (simp_all add: call_def split: option.splits)

lemma version_warnings_events [simp]:
  "requests_of (version_warnings resp) = []"
  "calls_of (version_warnings resp) = []"
  "items_of (version_warnings resp) = []"
  "completions_of (version_warnings resp) = []"
  by (simp_all add: version_warnings_def Let_def)

lemma request_events [simp]:
  "requests_of (snd (NylasConnection_request P conn opts)) = [requestOptions conn opts]"
  "calls_of (snd (NylasConnection_request P conn opts)) = []"
  "items_of (snd (NylasConnection_request P conn opts)) = []"
  "completions_of (snd (NylasConnection_request P conn opts)) = []"
  by (simp_all add: NylasConnection_request_def split: prod.splits option.splits)

lemma then_catch_rejected:
  "fst r = Rejected e \<Longrightarrow> then_catch cb f r = (Rejected e, snd r @ call cb (Some e) None)"
  by (cases r) (simp add: then_catch_def)

lemma then_map_rejected [simp]: "then_map f (Rejected e) = Rejected e"
  by (simp add: then_map_def)

lemma getModelCollection_snd:
  "snd (Collection_getModelCollection P conn cls ps off lmt p)
     = snd (NylasConnection_request P conn
              (request_for ''GET'' p (Some (ps\<lparr>offset := Some off, limit := Some lmt\<rparr>)) None))"
  by (simp add: Collection_getModelCollection_def split: prod.splits)

lemma getModelCollection_fst:
  "fst (Collection_getModelCollection P conn cls ps off lmt p)
     = then_map (models_of P cls) (fst (NylasConnection_request P conn
              (request_for ''GET'' p (Some (ps\<lparr>offset := Some off, limit := Some lmt\<rparr>)) None)))"
  by (simp add: Collection_getModelCollection_def split: prod.splits)

lemma getItems_snd:
  "snd (Collection_getItems P conn cls ps off lmt path)
     = snd (NylasConnection_request P conn
              (request_for ''GET''
                 (case path of None \<Rightarrow> Collection_path cls
                  | Some p \<Rightarrow> if p = [] then Collection_path cls else p)
                 (Some (ps\<lparr>offset := Some off, limit := Some lmt\<rparr>)) None))"
  by (simp add: Collection_getItems_def Let_def getModelCollection_snd)

lemma getItems_events [simp]:
  "calls_of (snd (Collection_getItems P conn cls ps off lmt path)) = []"
  "completions_of (snd (Collection_getItems P conn cls ps off lmt path)) = []"
  "items_of (snd (Collection_getItems P conn cls ps off lmt path)) = []"
  by (simp_all add: getItems_snd)

lemma getItems_rejected:
  assumes "\<And>opts. fst (NylasConnection_request P conn opts) = Rejected e"
  shows "fst (Collection_getItems P conn cls ps off lmt path) = Rejected e"
  by (simp add: Collection_getItems_def Let_def getModelCollection_fst assms)

lemma getModel_snd:
  "snd (Collection_getModel P conn cls ident ps)
     = snd (NylasConnection_request P conn
         (request_for ''GET'' (Collection_path cls @ ''/'' @ to_string P ident) (Some ps) None))"
  by (simp add: Collection_getModel_def split: prod.splits)

lemma getModel_fst:
  "fst (Collection_getModel P conn cls ident ps)
     = then_map (\<lambda>json. Inr (Collection_createModel P cls (as_json json)))
         (fst (NylasConnection_request P conn
           (request_for ''GET'' (Collection_path cls @ ''/'' @ to_string P ident) (Some ps) None)))"
  by (simp add: Collection_getModel_def split: prod.splits)

lemma getModel_rejected:
  assumes "\<And>opts. fst (NylasConnection_request P conn opts) = Rejected e"
  shows "fst (Collection_getModel P conn cls ident ps) = Rejected e"
  by (simp add: getModel_fst assms)

lemma range_iteratee_rejected:
  assumes "\<And>opts. fst (NylasConnection_request P conn opts) = Rejected e"
  shows "\<exists>tr. range_iteratee P conn cls ps off lmt path [] [] = Some (Rejected e, [], tr)
            \<and> calls_of tr = []"
proof -
  obtain s evs where g: "Collection_getItems P conn cls ps (off + int (length ([]::jsval list)))
                           (chunk_limit lmt (length ([]::jsval list))) path = (s, evs)"
    by (cases "Collection_getItems P conn cls ps (off + int (length ([]::jsval list)))
                           (chunk_limit lmt (length ([]::jsval list))) path") auto
  from getItems_rejected [OF assms, of cls ps "off + int (length ([]::jsval list))"
         "chunk_limit lmt (length ([]::jsval list))" path]
       getItems_events(1) [of P conn cls ps "off + int (length ([]::jsval list))"
         "chunk_limit lmt (length ([]::jsval list))" path]
  have "s = Rejected e" "calls_of evs = []" by (simp_all only: g fst_conv snd_conv)
  then show ?thesis
    using g by (subst range_iteratee.simps) simp
qed

lemma items_events [simp]:
  "calls_of (map Item its) = []"
  "completions_of (map Item its) = []"
  "requests_of (map Item its) = []"
  "items_of (map Item its) = its"
  by (induction its) simp_all

lemma forEach_iteratee_quiet:
  assumes "forEach_iteratee P conn cls ps off tr = Some y"
  shows "\<exists>new. snd y = tr @ new \<and> completions_of new = [] \<and> calls_of new = []"
proof -
  let ?Q = "\<lambda>x y. \<exists>new. snd y = snd x @ new \<and> completions_of new = [] \<and> calls_of new = []"
  have "?Q (((((P, conn), cls), ps), off), tr) y"
  proof (rule forEach_iteratee.raw_induct [OF _ assms])
    fix f :: "platform \<Rightarrow> connection \<Rightarrow> model_class \<Rightarrow> params \<Rightarrow> int \<Rightarrow> event list \<Rightarrow>
              (settle \<times> event list) option"
    fix P conn cls ps off tr y
    assume IH: "\<And>P conn cls ps off tr y. f P conn cls ps off tr = Some y \<Longrightarrow>
                  ?Q (((((P, conn), cls), ps), off), tr) y"
    assume body: "(case Collection_getItems P conn cls ps off REQUEST_CHUNK_SIZE None of
      (Fulfilled items, evs) \<Rightarrow>
        (case iterate_items items of Inl e \<Rightarrow> Some (Rejected e, tr @ evs)
        | Inr its \<Rightarrow>
            if int (length its) < REQUEST_CHUNK_SIZE
            then Some (Fulfilled (Wire JUndefined), tr @ evs @ map Item its)
            else f P conn cls ps (off + int (length its))
                  (tr @ evs @ map Item its))
      | (Rejected e, evs) \<Rightarrow> Some (Rejected e, tr @ evs)
      | (Crashed e, evs) \<Rightarrow> Some (Crashed e, tr @ evs)) = Some y"
    obtain s evs where g: "Collection_getItems P conn cls ps off REQUEST_CHUNK_SIZE None = (s, evs)"
      by (cases "Collection_getItems P conn cls ps off REQUEST_CHUNK_SIZE None") auto
    have q: "calls_of evs = []" "completions_of evs = []"
      using getItems_events(1,2) [of P conn cls ps off REQUEST_CHUNK_SIZE None]
      by (simp_all only: g snd_conv)
    show "?Q (((((P, conn), cls), ps), off), tr) y"
    proof (cases s)
      case (Fulfilled items)
      show ?thesis
      proof (cases "iterate_items items")
        case (Inl e)
        then show ?thesis using body g Fulfilled q by auto
      next
        case (Inr its)
        show ?thesis
        proof (cases "int (length its) < REQUEST_CHUNK_SIZE")
          case True
          then show ?thesis using body g Fulfilled Inr q by auto
        next
          case False
          then have "f P conn cls ps (off + int (length its)) (tr @ evs @ map Item its) = Some y"
            using body g Fulfilled Inr by simp
          from IH [OF this] obtain new where
            "snd y = (tr @ evs @ map Item its) @ new" "completions_of new = []" "calls_of new = []"
            by auto
          then show ?thesis using q by (intro exI [of _ "evs @ map Item its @ new"]) simp
        qed
      qed
    next
      case (Rejected e)
      then show ?thesis using body g q by auto
    next
      case (Crashed e)
      then show ?thesis using body g q by auto
    qed
  qed
  then show ?thesis by simp
qed

section \<open>Properties: failures\<close>

lemma count_rejected:
  assumes "\<And>opts. fst (NylasConnection_request P conn opts) = Rejected e"
  shows "fst (Collection_count P conn cls ps cb) = Promised (Rejected e)
       \<and> calls_of (snd (Collection_count P conn cls ps cb)) = reported cb e"
  by (simp add: Collection_count_def then_catch_rejected [OF assms] reported_def)

lemma first_rejected:
  assumes "\<And>opts. fst (NylasConnection_request P conn opts) = Rejected e"
      and "\<not> view_is P ps ''count''"
  shows "fst (Collection_first P conn cls ps cb) = Promised (Rejected e)
       \<and> calls_of (snd (Collection_first P conn cls ps cb)) = reported cb e"
  using assms(2) getItems_rejected [OF assms(1), of cls ps 0 1 None]
  by (simp add: Collection_first_def then_catch_rejected reported_def)

lemma find_rejected:
  assumes "\<And>opts. fst (NylasConnection_request P conn opts) = Rejected e"
      and "truthy ident"
      and "\<not> view_is P (find_params pa ca) ''count''"
      and "\<not> view_is P (find_params pa ca) ''ids''"
  shows "fst (Collection_find P conn cls ident pa ca) = Promised (Rejected e)
       \<and> calls_of (snd (Collection_find P conn cls ident pa ca)) = reported (find_callback pa ca) e"
  using assms(2-4) getModel_rejected [OF assms(1), of cls ident "find_params pa ca"]
  by (simp add: Collection_find_def then_catch_rejected reported_def getModel_snd)

lemma deleteItem_rejected:
  assumes "\<And>opts. fst (NylasConnection_request P conn opts) = Rejected e"
  shows "fst (Collection_deleteItem P conn cls H opts cb) = Promised (Rejected e)
       \<and> calls_of (snd (Collection_deleteItem P conn cls H opts cb))
           = reported (case del_callback opts of Some r \<Rightarrow> Some r | None \<Rightarrow> cb) e"
  by (simp add: Collection_deleteItem_def Let_def then_catch_rejected [OF assms] reported_def)

lemma delete_rejected:
  assumes "\<And>opts. fst (NylasConnection_request P conn opts) = Rejected e"
      and "\<not> falsy_item item"
  shows "fst (Collection_delete P conn cls H item pa ca) = Promised (Rejected e)
       \<and> calls_of (snd (Collection_delete P conn cls H item pa ca))
           = reported (swapped_callback pa ca) e"
  using assms(2) by (simp add: Collection_delete_def Let_def deleteItem_rejected [OF assms(1)])

lemma rehydrate_rejected:
  "fst r = Rejected e \<Longrightarrow>
   rehydrate P cls fs cb r = (Promised (Rejected e), snd r @ call cb (Some e) None, fs)"
  by (cases r) (simp add: rehydrate_def)

lemma save_rejected:
  assumes "\<And>opts. fst (NylasConnection_request P conn opts) = Rejected e"
      and "saveRequestBody H fs = Inr body"
  shows "fst (RestfulModel_save P conn cls H fs pa ca) = Promised (Rejected e)
       \<and> calls_of (fst (snd (RestfulModel_save P conn cls H fs pa ca)))
           = reported (swapped_callback pa ca) e
       \<and> snd (snd (RestfulModel_save P conn cls H fs pa ca)) = fs"
  by (simp add: RestfulModel_save_def assms(2) rehydrate_rejected [OF assms(1)] reported_def)

lemma list_rejected:
  assumes "\<And>opts. fst (NylasConnection_request P conn opts) = Rejected e"
      and "\<not> view_is P ps ''count''"
  shows "map_option fst (Collection_list P conn cls ps cb)
           = Some (Promised (case cb of None \<Rightarrow> Rejected e | Some r \<Rightarrow> Fulfilled r))
       \<and> map_option (\<lambda>x. calls_of (snd x)) (Collection_list P conn cls ps cb)
           = Some (reported cb e)"
proof -
  let ?off = "case offset ps of None \<Rightarrow> 0 | Some k \<Rightarrow> k"
  let ?lim = "limit_or_Infinity ps"
  obtain tr where tr: "range_iteratee P conn cls ps ?off ?lim None [] [] = Some (Rejected e, [], tr)"
    "calls_of tr = []"
    using range_iteratee_rejected [OF assms(1)] by blast
  show ?thesis
    using assms(2) tr
    by (simp add: Collection_list_def Collection_range_def reported_def split: option.splits)
qed

lemma unreachable_fails:
  "fst (NylasConnection_request P (sample_connection (unreachable e)) opts) = Rejected e"
  by (simp add: NylasConnection_request_def sample_connection_def unreachable_def)

lemma no_view [simp]: "\<not> view_is P no_params s"
  by (simp add: view_is_def no_params_def)




lemma then_catch_requests [simp]:
  "requests_of (snd (then_catch cb f r)) = requests_of (snd r)"
  by (cases r; cases "fst r") (auto simp add: then_catch_def split: sum.splits)

lemma count_requests:
  "requests_of (snd (Collection_count P conn cls ps cb))
       = [requestOptions conn
            (request_for ''GET'' (Collection_path cls)
               (Some (ps\<lparr>view := (case view ps of None \<Rightarrow> Some (JStr ''count'')
                                                 | Some v \<Rightarrow> Some v)\<rparr>)) None)]"
proof -
  let ?r = "NylasConnection_request P conn
              (request_for ''GET'' (Collection_path cls)
                 (Some (ps\<lparr>view := (case view ps of None \<Rightarrow> Some (JStr ''count'')
                                                   | Some v \<Rightarrow> Some v)\<rparr>)) None)"
  have "snd (Collection_count P conn cls ps cb) = snd (then_catch cb read_count ?r)"
    by (simp add: Collection_count_def split: prod.splits)
  then show ?thesis by simp
qed

text \<open>
  C5, as the code has it. \<open>list\<close> and \<open>first\<close> with the count view, and \<open>find\<close> with
  the count or ids view or with a falsy id, return a rejected promise and hand the
  usage error to the callback, and nothing else happens: no request is issued.
  \<open>count\<close> has no such check: whatever the view, it issues its one request, with the
  caller's \<open>view\<close> in place of \<open>count\<close> when the parameters have one.
\<close>

theorem usage_errors_before_any_request:
  "(view_is P ps ''count'' \<longrightarrow>
      Collection_list P conn cls ps cb
        = Some (Promised (Rejected (Error ''list() cannot be called with the count view'')),
                call cb (Some (Error ''list() cannot be called with the count view'')) None)
    \<and> Collection_first P conn cls ps cb
        = (Promised (Rejected (Error ''first() cannot be called with the count view'')),
           call cb (Some (Error ''first() cannot be called with the count view'')) None))
   \<and> (truthy ident \<and> (view_is P (find_params pa ca) ''count''
                        \<or> view_is P (find_params pa ca) ''ids'') \<longrightarrow>
        Collection_find P conn cls ident pa ca
          = (Promised (Rejected (Error ''find() cannot be called with the count or ids view'')),
             call (find_callback pa ca)
               (Some (Error ''find() cannot be called with the count or ids view'')) None))
   \<and> (\<not> truthy ident \<longrightarrow>
        Collection_find P conn cls ident pa ca
          = (Promised (Rejected (Error ''find() must be called with an item id'')),
             call (find_callback pa ca)
               (Some (Error ''find() must be called with an item id'')) None))
   \<and> requests_of (call cb' err res) = []
   \<and> requests_of (snd (Collection_count P conn cls ps cb))
       = [requestOptions conn
            (request_for ''GET'' (Collection_path cls)
               (Some (ps\<lparr>view := (case view ps of None \<Rightarrow> Some (JStr ''count'')
                                                 | Some v \<Rightarrow> Some v)\<rparr>)) None)]"
proof (intro conjI impI)
  assume v: "view_is P ps ''count''"
  show "Collection_list P conn cls ps cb
        = Some (Promised (Rejected (Error ''list() cannot be called with the count view'')),
                call cb (Some (Error ''list() cannot be called with the count view'')) None)"
    using v by (simp add: Collection_list_def)
  show "Collection_first P conn cls ps cb
        = (Promised (Rejected (Error ''first() cannot be called with the count view'')),
           call cb (Some (Error ''first() cannot be called with the count view'')) None)"
    using v by (simp add: Collection_first_def)
next
  assume "truthy ident \<and> (view_is P (find_params pa ca) ''count''
                        \<or> view_is P (find_params pa ca) ''ids'')"
  then show "Collection_find P conn cls ident pa ca
          = (Promised (Rejected (Error ''find() cannot be called with the count or ids view'')),
             call (find_callback pa ca)
               (Some (Error ''find() cannot be called with the count or ids view'')) None)"
    by (simp add: Collection_find_def)
next
  assume "\<not> truthy ident"
  then show "Collection_find P conn cls ident pa ca
          = (Promised (Rejected (Error ''find() must be called with an item id'')),
             call (find_callback pa ca)
               (Some (Error ''find() must be called with an item id'')) None)"
    by (simp add: Collection_find_def)
next
  show "requests_of (call cb' err res) = []" by simp
  show "requests_of (snd (Collection_count P conn cls ps cb))
       = [requestOptions conn
            (request_for ''GET'' (Collection_path cls)
               (Some (ps\<lparr>view := (case view ps of None \<Rightarrow> Some (JStr ''count'')
                                                 | Some v \<Rightarrow> Some v)\<rparr>)) None)]"
    by (rule count_requests)
qed

theorem usage_errors_before_any_request_witness:
  "Collection_list sample_platform (sample_connection not_found_server) Event
     (no_params\<lparr>view := Some (JStr ''count'')\<rparr>) (Some (Wire JUndefined))
     = Some (Promised (Rejected (Error ''list() cannot be called with the count view'')),
             [Called (Some (Error ''list() cannot be called with the count view'')) None])
   \<and> Collection_find sample_platform (sample_connection not_found_server) Event
       (JStr []) ArgNone ArgNone
     = (Promised (Rejected (Error ''find() must be called with an item id'')), [])
   \<and> Collection_find sample_platform (sample_connection not_found_server) Event
       (JStr ''e1'') (ArgObject (no_params\<lparr>view := Some (JStr ''ids'')\<rparr>)) ArgNone
     = (Promised (Rejected (Error ''find() cannot be called with the count or ids view'')), [])"
proof -
  have v: "view_is sample_platform (no_params\<lparr>view := Some (JStr ''count'')\<rparr>) ''count''"
    by (simp add: view_is_def)
  have w: "view_is sample_platform
             (find_params (ArgObject (no_params\<lparr>view := Some (JStr ''ids'')\<rparr>)) ArgNone) ''ids''"
    by (simp add: view_is_def find_params_def)
  have t: "truthy (JStr ''e1'')" "\<not> truthy (JStr [])" by simp_all
  show ?thesis
    using usage_errors_before_any_request
            [of sample_platform "no_params\<lparr>view := Some (JStr ''count'')\<rparr>"
                "sample_connection not_found_server" Event "Some (Wire JUndefined)"
                "JStr []" ArgNone ArgNone]
          usage_errors_before_any_request
            [of sample_platform "no_params\<lparr>view := Some (JStr ''count'')\<rparr>"
                "sample_connection not_found_server" Event "Some (Wire JUndefined)"
                "JStr ''e1''" "ArgObject (no_params\<lparr>view := Some (JStr ''ids'')\<rparr>)" ArgNone]
          v w t
    by (simp add: call_def find_callback_def)
qed

text \<open>The claim as stated fails for \<open>count\<close>: with the view \<open>ids\<close> it issues a request
  (carrying that view) and resolves with what the server counts.\<close>

theorem count_view_counterexample:
  "fst (Collection_count sample_platform
          (sample_connection (ok_server (JObj [(''count'', JNum (Fin 3))]))) Event
          (no_params\<lparr>view := Some (JStr ''ids'')\<rparr>) None)
     = Promised (Fulfilled (Wire (JNum (Fin 3))))
   \<and> map (\<lambda>ro. map_option view (opt_qs ro))
         (requests_of (snd (Collection_count sample_platform
            (sample_connection (ok_server (JObj [(''count'', JNum (Fin 3))]))) Event
            (no_params\<lparr>view := Some (JStr ''ids'')\<rparr>) None)))
     = [Some (Some (JStr ''ids''))]"
proof -
  let ?c = "sample_connection (ok_server (JObj [(''count'', JNum (Fin 3))]))"
  let ?o = "request_for ''GET'' (Collection_path Event)
              (Some (no_params\<lparr>view := Some (JStr ''ids'')\<rparr>)) None"
  have r: "NylasConnection_request sample_platform ?c ?o
             = (Fulfilled (Wire (JObj [(''count'', JNum (Fin 3))])),
                Requested (requestOptions ?c ?o) # version_warnings \<lparr>statusCode = 200, headers = []\<rparr>)"
    by (simp add: NylasConnection_request_def sample_connection_def ok_server_def parsed_body_def
          settle_response_def requestOptions_json requestOptions_downloadRequest request_for_def)
  have q: "opt_qs (requestOptions ?c ?o) = Some (no_params\<lparr>view := Some (JStr ''ids'')\<rparr>)"
    by (simp add: requestOptions_def step_keeps expand_view_def request_for_def no_params_def)
  show ?thesis
    by (simp add: Collection_count_def r then_catch_def read_count_def call_def q)
qed

lemma forEach_iteratee_rejected:
  assumes "\<And>opts. fst (NylasConnection_request P conn opts) = Rejected e"
  shows "forEach_iteratee P conn cls ps off tr
           = Some (Rejected e, tr @ snd (Collection_getItems P conn cls ps off REQUEST_CHUNK_SIZE None))"
proof -
  obtain s evs where g: "Collection_getItems P conn cls ps off REQUEST_CHUNK_SIZE None = (s, evs)"
    by (cases "Collection_getItems P conn cls ps off REQUEST_CHUNK_SIZE None") auto
  from getItems_rejected [OF assms, of cls ps off REQUEST_CHUNK_SIZE None]
  have "s = Rejected e" by (simp only: g fst_conv)
  then show ?thesis
    using g by (subst forEach_iteratee.simps) simp
qed



section \<open>Properties: hydrating a model\<close>

lemma fromJSON_loop_other:
  "n \<notin> attrName ` set attrs \<Longrightarrow> map_of (fromJSON_loop P attrs json fs) n = map_of fs n"
proof (induction attrs arbitrary: fs)
  case Nil
  then show ?case by simp
next
  case (Cons a attrs)
  then show ?case by (cases a) (simp add: update_conv')
qed

lemma fromJSON_loop_attr:
  "distinct (map attrName attrs) \<Longrightarrow> a \<in> set attrs \<Longrightarrow>
   map_of (fromJSON_loop P attrs json fs) (attrName a)
     = (if get_prop json (jsonKey a) \<noteq> JUndefined
        then Some (attr_fromJSON P (kind a) (get_prop json (jsonKey a)))
        else map_of fs (attrName a))"
proof (induction attrs arbitrary: fs)
  case Nil
  then show ?case by simp
next
  case (Cons b attrs)
  show ?case
  proof (cases "a = b")
    case True
    have "attrName b \<notin> attrName ` set attrs" using Cons.prems(1) by simp
    then show ?thesis
      using True by (cases b) (simp add: fromJSON_loop_other update_conv')
  next
    case False
    then have "a \<in> set attrs" using Cons.prems(2) by simp
    moreover have "distinct (map attrName attrs)" using Cons.prems(1) by simp
    moreover have "attrName a \<noteq> attrName b"
      using Cons.prems(1) \<open>a \<in> set attrs\<close> by (metis distinct.simps(2) image_eqI list.simps(9) set_map)
    ultimately show ?thesis
      using Cons.IH by (cases b) (simp add: update_conv')
  qed
qed

lemma fromJSON_object:
  "RestfulModel_fromJSON P cls (JObj kvs) fs = Inr (fromJSON_loop P (attributes cls) (JObj kvs) fs)"
  by (simp add: RestfulModel_fromJSON_def)

lemma ok_server_request:
  assumes "opt_json opts \<noteq> Some False" "\<not> opt_downloadRequest opts" "body \<noteq> JUndefined"
  shows "NylasConnection_request P (sample_connection (ok_server body)) opts
           = (Fulfilled (Wire body),
              Requested (requestOptions (sample_connection (ok_server body)) opts)
                # version_warnings \<lparr>statusCode = 200, headers = []\<rparr>)"
proof -
  have t: "transport (sample_connection (ok_server body))
             (requestOptions (sample_connection (ok_server body)) opts)
           = (None, Some \<lparr>statusCode = 200, headers = []\<rparr>, body)"
    by (simp add: sample_connection_def ok_server_def)
  show ?thesis
    using assms
    by (simp add: request_response [OF t] parsed_body_def settle_response_def
          requestOptions_json requestOptions_downloadRequest)
qed

lemma save_request_plain:
  "opt_json (save_request P cls H fs ps body) = None"
  "\<not> opt_downloadRequest (save_request P cls H fs ps body)"
  by (simp_all add: save_request_def request_for_def Let_def)

text \<open>
  C8. On an instance of a class whose attribute names are distinct (they are the keys
  of a dictionary) and a JSON object, \<open>fromJSON\<close> succeeds and returns the instance
  with these fields: a declared attribute whose wire key maps to a value other than
  \<open>undefined\<close>, \<open>null\<close> included, holds \<open>attr.fromJSON\<close> of that value; a declared
  attribute whose wire key is missing keeps its prior value; and so does every field
  that is no declared attribute. When \<open>save\<close>'s request resolves with that object,
  the instance is left with exactly these fields, and is what the promise and the
  callback receive.
\<close>

theorem fromJSON_frame:
  assumes "distinct (map attrName (attributes cls))"
  shows "\<exists>fs'. RestfulModel_fromJSON P cls (JObj kvs) fs = Inr fs'
           \<and> (\<forall>a \<in> set (attributes cls).
                 map_of fs' (attrName a)
                   = (if get_prop (JObj kvs) (jsonKey a) \<noteq> JUndefined
                      then Some (attr_fromJSON P (kind a) (get_prop (JObj kvs) (jsonKey a)))
                      else map_of fs (attrName a)))
           \<and> (\<forall>n. n \<notin> attrName ` set (attributes cls) \<longrightarrow> map_of fs' n = map_of fs n)
           \<and> (saveRequestBody H fs = Inr body
                \<and> NylasConnection_request P conn
                     (save_request P cls H fs (swapped_params pa) body)
                    = (Fulfilled (Wire (JObj kvs)), evs)
                \<longrightarrow> RestfulModel_save P conn cls H fs pa ca
                     = (Promised (Fulfilled (JModel cls fs')),
                        evs @ call (swapped_callback pa ca) None (Some (JModel cls fs')),
                        fs'))"
proof (intro exI [of _ "fromJSON_loop P (attributes cls) (JObj kvs) fs"] conjI ballI allI impI)
  show "RestfulModel_fromJSON P cls (JObj kvs) fs
          = Inr (fromJSON_loop P (attributes cls) (JObj kvs) fs)"
    by (rule fromJSON_object)
next
  fix a assume "a \<in> set (attributes cls)"
  then show "map_of (fromJSON_loop P (attributes cls) (JObj kvs) fs) (attrName a)
               = (if get_prop (JObj kvs) (jsonKey a) \<noteq> JUndefined
                  then Some (attr_fromJSON P (kind a) (get_prop (JObj kvs) (jsonKey a)))
                  else map_of fs (attrName a))"
    using assms by (rule fromJSON_loop_attr [rotated])
next
  fix n assume "n \<notin> attrName ` set (attributes cls)"
  then show "map_of (fromJSON_loop P (attributes cls) (JObj kvs) fs) n = map_of fs n"
    by (rule fromJSON_loop_other)
next
  assume "saveRequestBody H fs = Inr body
          \<and> NylasConnection_request P conn (save_request P cls H fs (swapped_params pa) body)
              = (Fulfilled (Wire (JObj kvs)), evs)"
  then show "RestfulModel_save P conn cls H fs pa ca
               = (Promised (Fulfilled (JModel cls (fromJSON_loop P (attributes cls) (JObj kvs) fs))),
                  evs @ call (swapped_callback pa ca) None
                          (Some (JModel cls (fromJSON_loop P (attributes cls) (JObj kvs) fs))),
                  fromJSON_loop P (attributes cls) (JObj kvs) fs)"
    by (simp add: RestfulModel_save_def rehydrate_def fromJSON_object)
qed

theorem fromJSON_frame_witness:
  "\<exists>fs'. RestfulModel_fromJSON sample_platform Calendar
            (JObj [(''name'', JNull), (''timezone'', JStr ''UTC'')])
            [(''name'', Wire (JStr ''old'')), (''description'', Wire (JStr ''keep''))] = Inr fs'
         \<and> map_of fs' ''name'' = Some (Wire (JStr []))
         \<and> map_of fs' ''description'' = Some (Wire (JStr ''keep''))
         \<and> map_of fs' ''timezone'' = Some (Wire (JStr ''UTC''))
         \<and> map_of fs' ''connection'' = None
         \<and> snd (snd (RestfulModel_save sample_platform
                        (sample_connection
                           (ok_server (JObj [(''name'', JNull), (''timezone'', JStr ''UTC'')])))
                        Calendar Calendar_hooks
                        [(''name'', Wire (JStr ''old'')), (''description'', Wire (JStr ''keep''))]
                        ArgNone None)) = fs'"
proof -
  let ?kvs = "[(''name'', JNull), (''timezone'', JStr ''UTC'')]"
  let ?fs = "[(''name'', Wire (JStr ''old'')), (''description'', Wire (JStr ''keep''))]"
  let ?conn = "sample_connection (ok_server (JObj ?kvs))"
  obtain body where b: "saveRequestBody Calendar_hooks ?fs = Inr body"
    by (simp add: Calendar_hooks_def Calendar_saveRequestBody_def)
  let ?o = "save_request sample_platform Calendar Calendar_hooks ?fs (swapped_params ArgNone) body"
  let ?evs = "Requested (requestOptions ?conn ?o) # version_warnings \<lparr>statusCode = 200, headers = []\<rparr>"
  have d: "distinct (map attrName (attributes Calendar))"
    by (simp add: Calendar_def RestfulModel_attributes_def)
  have r: "NylasConnection_request sample_platform ?conn ?o = (Fulfilled (Wire (JObj ?kvs)), ?evs)"
    by (rule ok_server_request) (simp_all add: save_request_plain)
  from fromJSON_frame [OF d, of sample_platform ?kvs ?fs Calendar_hooks body ?conn ArgNone ?evs None]
  obtain fs' where f:
    "RestfulModel_fromJSON sample_platform Calendar (JObj ?kvs) ?fs = Inr fs'"
    "\<forall>a \<in> set (attributes Calendar).
        map_of fs' (attrName a)
          = (if get_prop (JObj ?kvs) (jsonKey a) \<noteq> JUndefined
             then Some (attr_fromJSON sample_platform (kind a) (get_prop (JObj ?kvs) (jsonKey a)))
             else map_of ?fs (attrName a))"
    "\<forall>n. n \<notin> attrName ` set (attributes Calendar) \<longrightarrow> map_of fs' n = map_of ?fs n"
    "saveRequestBody Calendar_hooks ?fs = Inr body
       \<and> NylasConnection_request sample_platform ?conn ?o = (Fulfilled (Wire (JObj ?kvs)), ?evs)
     \<longrightarrow> RestfulModel_save sample_platform ?conn Calendar Calendar_hooks ?fs ArgNone None
          = (Promised (Fulfilled (JModel Calendar fs')),
             ?evs @ call (swapped_callback ArgNone None) None (Some (JModel Calendar fs')), fs')"
    by blast
  have m: "Attribute ''name'' ''name'' ''name'' KString \<in> set (attributes Calendar)"
          "Attribute ''description'' ''description'' ''description'' KString \<in> set (attributes Calendar)"
          "Attribute ''timezone'' ''timezone'' ''timezone'' KString \<in> set (attributes Calendar)"
    by (simp_all add: Calendar_def RestfulModel_attributes_def)
  have n: "''connection'' \<notin> attrName ` set (attributes Calendar)"
    by (simp add: Calendar_def RestfulModel_attributes_def)
  have 1: "map_of fs' ''name'' = Some (Wire (JStr []))"
    using f(2) m(1) by (fastforce simp add: AttributeString_fromJSON_def)
  have 2: "map_of fs' ''description'' = Some (Wire (JStr ''keep''))"
    using f(2) m(2) by fastforce
  have 3: "map_of fs' ''timezone'' = Some (Wire (JStr ''UTC''))"
    using f(2) m(3) by (fastforce simp add: AttributeString_fromJSON_def)
  have 4: "map_of fs' ''connection'' = None"
    using f(3) n by simp
  have 5: "snd (snd (RestfulModel_save sample_platform ?conn Calendar Calendar_hooks ?fs ArgNone None)) = fs'"
    using f(4) b r by simp
  show ?thesis
    using f(1) 1 2 3 4 5 by blast
qed

section \<open>Properties: paging\<close>

lemma window_request_for [simp]:
  "window (request_for m p (Some q) b) = (offset q, limit q)"
  by (simp add: window_def request_for_def)

lemma getItems_windows:
  "map window (requests_of (snd (Collection_getItems P conn cls ps off lmt path)))
     = [(Some off, Some lmt)]"
  by (simp add: getItems_snd requestOptions_window)

lemma getItems_requests_length:
  "length (requests_of (snd (Collection_getItems P conn cls ps off lmt path))) = 1"
  by (simp add: getItems_snd)

lemma request_paging:
  assumes "transport conn = paging_server items hs failing"
  shows "fst (NylasConnection_request P conn
           (request_for ''GET'' p (Some (ps\<lparr>offset := Some off, limit := Some lmt\<rparr>)) None))
     = (case failing off of
          Some e \<Rightarrow> Rejected e
        | None \<Rightarrow> Fulfilled (Wire (JArr (take (nat lmt) (drop (nat off) items)))))"
proof -
  let ?o = "request_for ''GET'' p (Some (ps\<lparr>offset := Some off, limit := Some lmt\<rparr>)) None"
  have w: "window (requestOptions conn ?o) = (Some off, Some lmt)"
    by (simp add: requestOptions_window)
  have j: "opt_json (requestOptions conn ?o) = Some True"
          "\<not> opt_downloadRequest (requestOptions conn ?o)"
    by (simp_all add: requestOptions_json requestOptions_downloadRequest request_for_def)
  show ?thesis
  proof (cases "failing off")
    case None
    then have "transport conn (requestOptions conn ?o)
                 = (None, Some \<lparr>statusCode = 200, headers = hs\<rparr>,
                    JArr (take (nat lmt) (drop (nat off) items)))"
      by (simp add: assms paging_server_def w page_def)
    from request_response [OF this] show ?thesis
      using None j by (simp add: parsed_body_def settle_response_def)
  next
    case (Some e)
    then have "transport conn (requestOptions conn ?o) = (Some e, None, JUndefined)"
      by (simp add: assms paging_server_def w)
    from request_no_response [OF this] show ?thesis
      using Some by simp
  qed
qed

lemma getItems_paging:
  assumes "transport conn = paging_server items hs failing"
  shows "fst (Collection_getItems P conn cls ps off lmt path)
     = (case failing off of
          Some e \<Rightarrow> Rejected e
        | None \<Rightarrow>
            if view_is P ps ''ids''
            then Fulfilled (Wire (JArr (take (nat lmt) (drop (nat off) items))))
            else Fulfilled (JList (map (Collection_createModel P cls)
                                     (take (nat lmt) (drop (nat off) items)))))"
  by (simp add: Collection_getItems_def Let_def getModelCollection_fst request_paging [OF assms]
        then_map_def models_of_def split: option.splits)

lemma chunk_ops:
  "concat_items acc (if view_is P ps ''ids'' then Wire (JArr xs)
                     else JList (map (Collection_createModel P cls) xs)) = acc @ made P cls ps xs"
  "items_length (if view_is P ps ''ids'' then Wire (JArr xs)
                 else JList (map (Collection_createModel P cls) xs))
     = Inr (JNum (Fin (of_nat (length xs))))"
  "iterate_items (if view_is P ps ''ids'' then Wire (JArr xs)
                  else JList (map (Collection_createModel P cls) xs)) = Inr (made P cls ps xs)"
  by (simp_all add: made_def)

lemma made_length [simp]: "length (made P cls ps xs) = length xs"
  by (simp add: made_def)

lemma made_append [simp]: "made P cls ps (xs @ ys) = made P cls ps xs @ made P cls ps ys"
  by (simp add: made_def)

lemma less_than_count [simp]:
  "less_than P (JNum (Fin (of_nat k))) REQUEST_CHUNK_SIZE = (k < 100)"
  by (simp add: less_than_def REQUEST_CHUNK_SIZE_def)

lemma range_step:
  assumes t: "transport conn = paging_server items hs (\<lambda>_. None)" and off: "0 \<le> off"
  shows "range_iteratee P conn cls ps off lmt path acc tr =
     (if length (take (nat (chunk_limit lmt (length acc))) (drop (length acc) (drop (nat off) items))) < 100
         \<or> reached lmt (length acc
              + length (take (nat (chunk_limit lmt (length acc))) (drop (length acc) (drop (nat off) items))))
      then Some (Fulfilled (Wire JUndefined),
                 acc @ made P cls ps
                   (take (nat (chunk_limit lmt (length acc))) (drop (length acc) (drop (nat off) items))),
                 tr @ snd (Collection_getItems P conn cls ps (off + int (length acc))
                             (chunk_limit lmt (length acc)) path))
      else range_iteratee P conn cls ps off lmt path
             (acc @ made P cls ps
                (take (nat (chunk_limit lmt (length acc))) (drop (length acc) (drop (nat off) items))))
             (tr @ snd (Collection_getItems P conn cls ps (off + int (length acc))
                             (chunk_limit lmt (length acc)) path)))"
proof -
  let ?g = "Collection_getItems P conn cls ps (off + int (length acc))
              (chunk_limit lmt (length acc)) path"
  let ?xs = "take (nat (chunk_limit lmt (length acc))) (drop (length acc) (drop (nat off) items))"
  have d: "drop (nat (off + int (length acc))) items = drop (length acc) (drop (nat off) items)"
    using off by (simp add: nat_add_distrib add.commute)
  have f: "fst ?g = (if view_is P ps ''ids'' then Fulfilled (Wire (JArr ?xs))
                     else Fulfilled (JList (map (Collection_createModel P cls) ?xs)))"
    using getItems_paging [OF t, of P cls ps "off + int (length acc)" "chunk_limit lmt (length acc)" path]
    by (simp only: d option.case)
  obtain s evs where g: "?g = (s, evs)" by (cases ?g) auto
  have s: "s = (if view_is P ps ''ids'' then Fulfilled (Wire (JArr ?xs))
                else Fulfilled (JList (map (Collection_createModel P cls) ?xs)))"
    using f by (simp only: g fst_conv)
  show ?thesis
    by (subst range_iteratee.simps) (simp add: g s made_def del: length_take length_drop take_drop)
qed

lemma take_then_drop: "take 100 (drop a xs) @ drop (a + 100) xs = drop a xs"
  by (metis append_take_drop_id drop_drop add.commute)

lemma take_then_take:
  "100 \<le> k \<Longrightarrow> take 100 (drop a xs) @ take (k - 100) (drop (a + 100) xs) = take k (drop a xs)"
proof -
  assume "100 \<le> k"
  then have k: "k = 100 + (k - 100)" by simp
  have "drop (a + 100) xs = drop 100 (drop a xs)" by (simp add: add.commute)
  then show ?thesis by (subst (2) k) (simp only: take_add)
qed

lemma windows_step:
  "j < m \<Longrightarrow>
   (Some (off + int (100 * j)), Some (chunk_limit lmt (100 * j))) # expected_windows off lmt (Suc j) m
     = expected_windows off lmt j m"
  by (simp add: expected_windows_def upt_conv_Cons)

lemma windows_last:
  "[(Some (off + int (100 * j)), Some (chunk_limit lmt (100 * j)))]
     = expected_windows off lmt j (Suc j)"
  by (simp add: expected_windows_def)

lemma div_between: "100 * j < L \<Longrightarrow> L \<le> 100 * j + 100 \<Longrightarrow> (L + 99) div 100 = Suc j"
  for j L :: nat
  by (rule div_nat_eqI) simp_all

lemma div_below: "100 * j \<le> n \<Longrightarrow> n < 100 * j + 100 \<Longrightarrow> n div 100 = j"
  for j n :: nat
  by (rule div_nat_eqI) simp_all

lemma chunks_last:
  fixes n j L :: nat
  assumes an: "100 * j \<le> n" and al: "100 * j < L"
      and fin: "min (min 100 (L - 100 * j)) (n - 100 * j) < 100
                \<or> L \<le> 100 * j + min (min 100 (L - 100 * j)) (n - 100 * j)"
  shows "(if L \<le> n then (L + 99) div 100 else n div 100 + 1) = Suc j"
proof (cases "L \<le> n")
  case True
  have "L \<le> 100 * j + 100"
  proof (rule ccontr)
    assume "\<not> L \<le> 100 * j + 100"
    then have "100 * j + 100 < L" by simp
    with True have "min (min 100 (L - 100 * j)) (n - 100 * j) = 100" by simp
    with fin \<open>100 * j + 100 < L\<close> show False by simp
  qed
  with al True show ?thesis by (simp add: div_between)
next
  case False
  have "n < 100 * j + 100"
  proof (rule ccontr)
    assume "\<not> n < 100 * j + 100"
    then have "100 * j + 100 \<le> n" by simp
    with False have "min (min 100 (L - 100 * j)) (n - 100 * j) = 100" by simp
    with fin False \<open>100 * j + 100 \<le> n\<close> show False by simp
  qed
  with an False show ?thesis by (simp add: div_below)
qed

lemma chunks_more:
  fixes n j L :: nat
  assumes "100 * j + 100 \<le> n" "100 * j + 100 < L"
  shows "j < (if L \<le> n then (L + 99) div 100 else n div 100 + 1)"
proof -
  have "Suc j \<le> n div 100" using assms(1) by (simp add: less_eq_div_iff_mult_less_eq)
  moreover have "Suc j \<le> (L + 99) div 100" using assms(2) by (simp add: less_eq_div_iff_mult_less_eq)
  ultimately show ?thesis by simp
qed

lemma chunks_more_unlimited:
  fixes n j :: nat
  assumes "100 * j + 100 \<le> n"
  shows "j < n div 100 + 1"
proof -
  have "Suc j \<le> n div 100" using assms(1) by (simp add: less_eq_div_iff_mult_less_eq)
  then show ?thesis by simp
qed

lemma nat_chunk_limit_le: "nat (chunk_limit lmt a) \<le> 100"
  by (cases lmt) (simp_all add: REQUEST_CHUNK_SIZE_def)

lemma nat_chunk_limit:
  "int a < l \<Longrightarrow> nat (chunk_limit (Limit l) a) = min 100 (nat l - a)"
  unfolding chunk_limit.simps REQUEST_CHUNK_SIZE_def by arith

lemma range_iteratee_paging:
  assumes t: "transport conn = paging_server items hs (\<lambda>_. None)" and off: "0 \<le> off"
  shows "length acc = 100 * j \<Longrightarrow> 100 * j \<le> length (drop (nat off) items) \<Longrightarrow>
         (case lmt of Limit l \<Rightarrow> int (100 * j) < l | Unlimited \<Rightarrow> True) \<Longrightarrow>
         \<exists>evs. range_iteratee P conn cls ps off lmt path acc tr
                  = Some (Fulfilled (Wire JUndefined),
                          acc @ made P cls ps (drop (100 * j) (bounded lmt (drop (nat off) items))),
                          tr @ evs)
              \<and> map window (requests_of evs)
                  = expected_windows off lmt j (chunks_needed lmt (length (drop (nat off) items)))
              \<and> calls_of evs = []"
proof (induction "length (drop (nat off) items) - 100 * j" arbitrary: acc tr j rule: less_induct)
  case less
  let ?its = "drop (nat off) items"
  let ?n = "length ?its"
  let ?a = "100 * j"
  let ?cl = "chunk_limit lmt ?a"
  let ?xs = "take (nat ?cl) (drop ?a ?its)"
  let ?g = "Collection_getItems P conn cls ps (off + int ?a) ?cl path"
  let ?m = "chunks_needed lmt ?n"
  have la: "length acc = ?a" by (rule less.prems(1))
  have an: "?a \<le> ?n" by (rule less.prems(2))
  have w: "map window (requests_of (snd ?g)) = [(Some (off + int ?a), Some ?cl)]"
    by (rule getItems_windows)
  have q: "calls_of (snd ?g) = []" by simp
  have step: "range_iteratee P conn cls ps off lmt path acc tr =
     (if length ?xs < 100 \<or> reached lmt (?a + length ?xs)
      then Some (Fulfilled (Wire JUndefined), acc @ made P cls ps ?xs, tr @ snd ?g)
      else range_iteratee P conn cls ps off lmt path (acc @ made P cls ps ?xs) (tr @ snd ?g))"
    using range_step [OF t off, of P cls ps lmt path acc tr] by (simp only: la)
  have lx: "length ?xs = min (nat ?cl) (?n - ?a)" by simp
  show ?case
  proof (cases "length ?xs < 100 \<or> reached lmt (?a + length ?xs)")
    case True
    have xs: "?xs = drop ?a (bounded lmt ?its)"
    proof (cases lmt)
      case Unlimited
      with True have "?n - ?a < 100" by (simp add: REQUEST_CHUNK_SIZE_def)
      then show ?thesis using Unlimited by (simp add: bounded_def REQUEST_CHUNK_SIZE_def)
    next
      case (Limit l)
      with less.prems(3) have al: "int ?a < l" by simp
      have d: "drop ?a (bounded lmt ?its) = take (nat l - ?a) (drop ?a ?its)"
        using Limit by (simp add: bounded_def drop_take)
      show ?thesis
      proof (cases "nat l - ?a \<le> 100")
        case True
        then have "nat ?cl = nat l - ?a" using Limit nat_chunk_limit [OF al] by simp
        then show ?thesis using d by simp
      next
        case False
        then have c: "nat ?cl = 100" using Limit nat_chunk_limit [OF al] by simp
        with True False Limit al have "?n - ?a < 100" by (auto simp add: min_def split: if_splits)
        then show ?thesis using d c False by simp
      qed
    qed
    have m: "?m = Suc j"
    proof (cases lmt)
      case Unlimited
      with True have "?n - ?a < 100" by (simp add: REQUEST_CHUNK_SIZE_def)
      with an have "?n < 100 * j + 100" by simp
      from div_below [OF an this] show ?thesis
        unfolding Unlimited chunks_needed_def js_limit.case by simp
    next
      case (Limit l)
      with less.prems(3) have al: "int ?a < l" by simp
      then have al': "100 * j < nat l" by simp
      have cl: "nat ?cl = min 100 (nat l - ?a)" using Limit nat_chunk_limit [OF al] by simp
      have lxc: "length ?xs = min (min 100 (nat l - ?a)) (?n - ?a)"
        using lx cl by simp
      from True have fin: "min (min 100 (nat l - ?a)) (?n - ?a) < 100
                       \<or> nat l \<le> ?a + min (min 100 (nat l - ?a)) (?n - ?a)"
        unfolding lxc using Limit by (simp add: nat_le_iff)
      show ?thesis
        unfolding Limit chunks_needed_def js_limit.case by (rule chunks_last [OF an al' fin])
    qed
    show ?thesis
      using step True w q xs m by (simp add: windows_last [symmetric])
  next
    case False
    then have ge: "\<not> length ?xs < 100" and nr0: "\<not> reached lmt (?a + length ?xs)"
      by simp_all
    have le: "nat ?cl \<le> 100" by (rule nat_chunk_limit_le)
    have "length ?xs \<le> nat ?cl" by simp
    with ge le have full: "length ?xs = 100" by linarith
    have nr: "\<not> reached lmt (?a + 100)" using nr0 unfolding full by assumption
    have "100 \<le> min (nat ?cl) (?n - ?a)" using full lx by simp
    then have "100 \<le> nat ?cl" "100 \<le> ?n - ?a" by simp_all
    with le an have c100: "nat ?cl = 100" and more: "?a + 100 \<le> ?n" by linarith+
    have xs: "?xs = take 100 (drop ?a ?its)" using c100 by simp
    have p1: "length (acc @ made P cls ps ?xs) = 100 * Suc j" using la full by simp
    have p2: "100 * Suc j \<le> ?n" using more by simp
    have p3: "case lmt of Limit l \<Rightarrow> int (100 * Suc j) < l | Unlimited \<Rightarrow> True"
      using nr by (cases lmt) simp_all
    have dec: "?n - 100 * Suc j < ?n - ?a" using more by simp
    from less.hyps [OF dec p1 p2 p3, of "tr @ snd ?g"]
    obtain evs where e:
      "range_iteratee P conn cls ps off lmt path (acc @ made P cls ps ?xs) (tr @ snd ?g)
         = Some (Fulfilled (Wire JUndefined),
                 (acc @ made P cls ps ?xs) @ made P cls ps (drop (100 * Suc j) (bounded lmt ?its)),
                 (tr @ snd ?g) @ evs)"
      "map window (requests_of evs) = expected_windows off lmt (Suc j) ?m"
      "calls_of evs = []"
      by blast
    have items: "?xs @ drop (100 * Suc j) (bounded lmt ?its) = drop ?a (bounded lmt ?its)"
    proof (cases lmt)
      case Unlimited
      then show ?thesis using xs take_then_drop [of ?a ?its] by (simp add: bounded_def add.commute)
    next
      case (Limit l)
      with nr have big: "?a + 100 < nat l" by simp
      have "drop (100 * Suc j) (take (nat l) ?its) = take (nat l - ?a - 100) (drop (?a + 100) ?its)"
        by (simp add: drop_take add.commute)
      moreover have "drop ?a (take (nat l) ?its) = take (nat l - ?a) (drop ?a ?its)"
        by (simp add: drop_take)
      moreover have "100 \<le> nat l - ?a" using big by simp
      ultimately show ?thesis
        using Limit xs take_then_take [of "nat l - ?a" ?a ?its] by (simp add: bounded_def)
    qed
    have jm: "j < ?m"
    proof (cases lmt)
      case Unlimited
      show ?thesis
        unfolding Unlimited chunks_needed_def js_limit.case by (rule chunks_more_unlimited [OF more])
    next
      case (Limit l)
      with nr have big: "?a + 100 < nat l" by simp
      show ?thesis
        unfolding Limit chunks_needed_def js_limit.case by (rule chunks_more [OF more big])
    qed
    have ws: "map window (requests_of (snd ?g @ evs)) = expected_windows off lmt j ?m"
      using w e(2) windows_step [OF jm, of off lmt] by simp
    have "range_iteratee P conn cls ps off lmt path acc tr
            = Some (Fulfilled (Wire JUndefined),
                    acc @ made P cls ps (drop ?a (bounded lmt ?its)), tr @ (snd ?g @ evs))"
      using step False e(1) items
      by (simp only: if_False append_assoc made_append [symmetric])
    then show ?thesis using ws q e(3) by (intro exI [of _ "snd ?g @ evs"]) simp
  qed
qed

lemma list_paging_run:
  assumes t: "transport conn = paging_server items hs (\<lambda>_. None)"
      and v: "\<not> view_is P ps ''count''"
      and o: "case offset ps of None \<Rightarrow> True | Some k \<Rightarrow> 0 \<le> k"
      and l: "case limit_or_Infinity ps of Limit L \<Rightarrow> 0 < L | Unlimited \<Rightarrow> True"
  shows "\<exists>tr. Collection_list P conn cls ps None
                 = Some (Promised (Fulfilled (JList (made P cls ps
                           (bounded (limit_or_Infinity ps)
                              (drop (nat (case offset ps of None \<Rightarrow> 0 | Some k \<Rightarrow> k)) items))))),
                         tr)
            \<and> map window (requests_of tr)
                = expected_windows (case offset ps of None \<Rightarrow> 0 | Some k \<Rightarrow> k)
                    (limit_or_Infinity ps) 0
                    (chunks_needed (limit_or_Infinity ps)
                       (length (drop (nat (case offset ps of None \<Rightarrow> 0 | Some k \<Rightarrow> k)) items)))"
proof -
  let ?off = "case offset ps of None \<Rightarrow> 0 | Some k \<Rightarrow> k"
  let ?lmt = "limit_or_Infinity ps"
  have off: "0 \<le> ?off" using o by (cases "offset ps") simp_all
  have pos: "case ?lmt of Limit l \<Rightarrow> int (100 * 0) < l | Unlimited \<Rightarrow> True"
    using l by (cases ?lmt) simp_all
  from range_iteratee_paging [OF t off, of "[]" 0 ?lmt P cls ps None "[]"] pos
  obtain evs where e:
    "range_iteratee P conn cls ps ?off ?lmt None [] []
       = Some (Fulfilled (Wire JUndefined),
               made P cls ps (bounded ?lmt (drop (nat ?off) items)), evs)"
    "map window (requests_of evs)
       = expected_windows ?off ?lmt 0 (chunks_needed ?lmt (length (drop (nat ?off) items)))"
    by auto
  have "Collection_list P conn cls ps None
          = Some (Promised (Fulfilled (JList (made P cls ps (bounded ?lmt (drop (nat ?off) items))))),
                  evs)"
    using v e(1) by (simp add: Collection_list_def Collection_range_def)
  with e(2) show ?thesis by blast
qed

lemma offsets_increase:
  "sorted_wrt (<) (map (\<lambda>w. case fst w of None \<Rightarrow> 0 | Some k \<Rightarrow> k) (expected_windows off lmt j m))"
proof -
  have "map (\<lambda>w. case fst w of None \<Rightarrow> 0 | Some k \<Rightarrow> k) (expected_windows off lmt j m)
          = map (\<lambda>k. off + int (100 * k)) [j..<m]"
    by (simp add: expected_windows_def comp_def)
  moreover have "sorted_wrt (<) (map (\<lambda>k. off + int (100 * k)) [j..<m])"
    by (simp add: sorted_wrt_map sorted_wrt_iff_nth_less)
  ultimately show ?thesis by simp
qed

text \<open>
  C1, as the code has it. Against a server that holds a sequence of items and serves
  the window it is asked for, \<open>list\<close> without an offset and with a positive limit
  \<open>L\<close>, or with no limit, asks for chunk \<open>k\<close> at offset \<open>100 k\<close> with the limit
  \<open>min(100, L - 100 k)\<close> (100 without a limit), the offsets strictly increasing; it
  stops with the first chunk that is short or reaches the limit, after
  \<open>chunks_needed\<close> requests; and it resolves to the first \<open>L\<close> items in order (all
  of them without a limit), which are \<open>min(L, n)\<close> items: at most \<open>L\<close>, and exactly
  \<open>L\<close> when the server holds that many. A limit of 0 is no limit to the code
  (\<open>params.limit || Infinity\<close>) and is not covered.
\<close>

theorem list_pages:
  assumes "transport conn = paging_server items hs (\<lambda>_. None)"
      and "\<not> view_is P ps ''count''"
      and "offset ps = None"
      and "case limit ps of None \<Rightarrow> True | Some L \<Rightarrow> 0 < L"
  shows "\<exists>tr. Collection_list P conn cls ps None
                 = Some (Promised (Fulfilled (JList (made P cls ps
                           (case limit ps of None \<Rightarrow> items | Some L \<Rightarrow> take (nat L) items)))), tr)
            \<and> map window (requests_of tr)
                = expected_windows 0 (limit_or_Infinity ps) 0
                    (chunks_needed (limit_or_Infinity ps) (length items))
            \<and> sorted_wrt (<) (offsets_of tr)
            \<and> (\<forall>L. limit ps = Some L \<longrightarrow>
                  length (made P cls ps (take (nat L) items)) = min (nat L) (length items))"
proof -
  have o: "case offset ps of None \<Rightarrow> True | Some k \<Rightarrow> 0 \<le> k" using assms(3) by simp
  have l: "case limit_or_Infinity ps of Limit L \<Rightarrow> 0 < L | Unlimited \<Rightarrow> True"
    using assms(4) by (simp add: limit_or_Infinity_def split: option.splits)
  have b: "bounded (limit_or_Infinity ps) items
             = (case limit ps of None \<Rightarrow> items | Some L \<Rightarrow> take (nat L) items)"
    using assms(4) by (simp add: limit_or_Infinity_def bounded_def split: option.splits)
  from list_paging_run [OF assms(1,2) o l, of cls]
  obtain tr where r:
    "Collection_list P conn cls ps None
       = Some (Promised (Fulfilled (JList (made P cls ps
                 (case limit ps of None \<Rightarrow> items | Some L \<Rightarrow> take (nat L) items)))), tr)"
    "map window (requests_of tr)
       = expected_windows 0 (limit_or_Infinity ps) 0
           (chunks_needed (limit_or_Infinity ps) (length items))"
    using assms(3) b by auto
  have "offsets_of tr = map (\<lambda>w. case fst w of None \<Rightarrow> 0 | Some k \<Rightarrow> k)
                          (map window (requests_of tr))"
    by (simp add: offsets_of_def comp_def)
  then have s: "sorted_wrt (<) (offsets_of tr)"
    using offsets_increase by (simp only: r(2))
  show ?thesis
    using r s by (intro exI [of _ tr]) (simp add: min.commute)
qed

text \<open>With 250 items and no limit: three requests, which return 100, 100 and 50
  items; with the limit 120: two requests, for 100 and for 20 items.\<close>

theorem list_pages_witness:
  "(\<exists>tr. Collection_list sample_platform
            (sample_connection (paging_server (replicate 250 (JObj [])) [] (\<lambda>_. None)))
            Event no_params None
          = Some (Promised (Fulfilled (JList
                    (map (Collection_createModel sample_platform Event) (replicate 250 (JObj []))))),
                  tr)
        \<and> map window (requests_of tr)
            = [(Some 0, Some 100), (Some 100, Some 100), (Some 200, Some 100)]
        \<and> map (\<lambda>w. length (page (replicate 250 (JObj [])) w)) (map window (requests_of tr))
            = [100, 100, 50])
   \<and> (\<exists>tr. Collection_list sample_platform
            (sample_connection (paging_server (replicate 250 (JObj [])) [] (\<lambda>_. None)))
            Event (no_params\<lparr>limit := Some 120\<rparr>) None
          = Some (Promised (Fulfilled (JList
                    (map (Collection_createModel sample_platform Event) (replicate 120 (JObj []))))),
                  tr)
        \<and> map window (requests_of tr) = [(Some 0, Some 100), (Some 100, Some 20)])"
proof -
  let ?items = "replicate 250 (JObj [])"
  let ?conn = "sample_connection (paging_server ?items [] (\<lambda>_. None))"
  have t: "transport ?conn = paging_server ?items [] (\<lambda>_. None)"
    by (simp add: sample_connection_def)
  have v: "\<not> view_is sample_platform no_params ''count''"
          "\<not> view_is sample_platform (no_params\<lparr>limit := Some 120\<rparr>) ''count''"
    by (simp_all add: view_is_def no_params_def)
  have i: "\<not> view_is sample_platform no_params ''ids''"
          "\<not> view_is sample_platform (no_params\<lparr>limit := Some 120\<rparr>) ''ids''"
    by (simp_all add: view_is_def no_params_def)
  have o: "offset no_params = None" "offset (no_params\<lparr>limit := Some 120\<rparr>) = None"
    by (simp_all add: no_params_def)
  have l: "case limit no_params of None \<Rightarrow> True | Some L \<Rightarrow> 0 < L"
          "case limit (no_params\<lparr>limit := Some 120\<rparr>) of None \<Rightarrow> True | Some L \<Rightarrow> 0 < L"
    by (simp_all add: no_params_def)
  have w1: "expected_windows 0 (limit_or_Infinity no_params) 0
              (chunks_needed (limit_or_Infinity no_params) (length ?items))
            = [(Some 0, Some 100), (Some 100, Some 100), (Some 200, Some 100)]"
    by (simp add: limit_or_Infinity_def no_params_def chunks_needed_def expected_windows_def
          REQUEST_CHUNK_SIZE_def upt_conv_Cons)
  have w2: "expected_windows 0 (limit_or_Infinity (no_params\<lparr>limit := Some 120\<rparr>)) 0
              (chunks_needed (limit_or_Infinity (no_params\<lparr>limit := Some 120\<rparr>)) (length ?items))
            = [(Some 0, Some 100), (Some 100, Some 20)]"
    by (simp add: limit_or_Infinity_def no_params_def chunks_needed_def expected_windows_def
          REQUEST_CHUNK_SIZE_def upt_conv_Cons)
  have m1: "made sample_platform Event no_params
              (case limit no_params of None \<Rightarrow> ?items | Some L \<Rightarrow> take (nat L) ?items)
            = map (Collection_createModel sample_platform Event) (replicate 250 (JObj []))"
    using i(1) by (simp add: made_def no_params_def)
  have m2: "made sample_platform Event (no_params\<lparr>limit := Some 120\<rparr>)
              (case limit (no_params\<lparr>limit := Some 120\<rparr>) of None \<Rightarrow> ?items
               | Some L \<Rightarrow> take (nat L) ?items)
            = map (Collection_createModel sample_platform Event) (replicate 120 (JObj []))"
    using i(2) by (simp add: made_def)
  have p: "map (\<lambda>w. length (page ?items w))
             [(Some 0, Some 100), (Some 100, Some 100), (Some 200, Some 100)] = [100, 100, 50]"
    by (simp add: page_def)
  from list_pages [OF t v(1) o(1) l(1), of Event]
  obtain tr1 where a:
    "Collection_list sample_platform ?conn Event no_params None
       = Some (Promised (Fulfilled (JList
                 (map (Collection_createModel sample_platform Event) (replicate 250 (JObj []))))), tr1)"
    "map window (requests_of tr1) = [(Some 0, Some 100), (Some 100, Some 100), (Some 200, Some 100)]"
    unfolding w1 m1 by (elim exE conjE) (rule that; assumption)
  from list_pages [OF t v(2) o(2) l(2), of Event]
  obtain tr2 where b:
    "Collection_list sample_platform ?conn Event (no_params\<lparr>limit := Some 120\<rparr>) None
       = Some (Promised (Fulfilled (JList
                 (map (Collection_createModel sample_platform Event) (replicate 120 (JObj []))))), tr2)"
    "map window (requests_of tr2) = [(Some 0, Some 100), (Some 100, Some 20)]"
    unfolding w2 m2 by (elim exE conjE) (rule that; assumption)
  have c: "map (\<lambda>w. length (page ?items w)) (map window (requests_of tr1)) = [100, 100, 50]"
    using p by (simp only: a(2))
  show ?thesis
  proof (rule conjI)
    show "\<exists>tr. Collection_list sample_platform ?conn Event no_params None
          = Some (Promised (Fulfilled (JList
                    (map (Collection_createModel sample_platform Event) (replicate 250 (JObj []))))),
                  tr)
        \<and> map window (requests_of tr)
            = [(Some 0, Some 100), (Some 100, Some 100), (Some 200, Some 100)]
        \<and> map (\<lambda>w. length (page (replicate 250 (JObj [])) w)) (map window (requests_of tr))
            = [100, 100, 50]"
      by (rule exI [of _ tr1], intro conjI, (rule a c)+)
    show "\<exists>tr. Collection_list sample_platform ?conn Event (no_params\<lparr>limit := Some 120\<rparr>) None
          = Some (Promised (Fulfilled (JList
                    (map (Collection_createModel sample_platform Event) (replicate 120 (JObj []))))),
                  tr)
        \<and> map window (requests_of tr) = [(Some 0, Some 100), (Some 100, Some 20)]"
      by (rule exI [of _ tr2], intro conjI, (rule b)+)
  qed
qed

text \<open>The claim as stated fails for the limit 0: one item is returned, which is more
  than 0.\<close>

theorem list_limit_zero_counterexample:
  "map_option fst
     (Collection_list sample_platform
        (sample_connection (paging_server [JStr ''a''] [] (\<lambda>_. None))) Event
        (no_params\<lparr>view := Some (JStr ''ids''), limit := Some 0\<rparr>) None)
   = Some (Promised (Fulfilled (JList [Wire (JStr ''a'')])))"
proof -
  let ?ps = "no_params\<lparr>view := Some (JStr ''ids''), limit := Some 0\<rparr>"
  let ?conn = "sample_connection (paging_server [JStr ''a''] [] (\<lambda>_. None))"
  have t: "transport ?conn = paging_server [JStr ''a''] [] (\<lambda>_. None)"
    by (simp add: sample_connection_def)
  have v: "\<not> view_is sample_platform ?ps ''count''" "view_is sample_platform ?ps ''ids''"
    by (simp_all add: view_is_def)
  have o: "case offset ?ps of None \<Rightarrow> True | Some k \<Rightarrow> 0 \<le> k"
    by (simp add: no_params_def)
  have u: "limit_or_Infinity ?ps = Unlimited"
    by (simp add: limit_or_Infinity_def)
  have l: "case limit_or_Infinity ?ps of Limit L \<Rightarrow> 0 < L | Unlimited \<Rightarrow> True"
    by (simp add: u)
  have ofs: "(case offset ?ps of None \<Rightarrow> 0 | Some k \<Rightarrow> k) = 0"
    by (simp add: no_params_def)
  have m: "made sample_platform Event ?ps (bounded Unlimited (drop (nat 0) [JStr ''a'']))
             = [Wire (JStr ''a'')]"
    using v(2) by (simp add: made_def bounded_def)
  from list_paging_run [OF t v(1) o l, of Event, unfolded u ofs m]
  show ?thesis by auto
qed

end
